theory Spec2Isabelle
  imports Complex_Main
begin

section \<open>Settings and the constant adapter (src/utils/constant.js)\<close>

text \<open>
  JSON values, as the configuration supplies them for cookies and for the
  local-storage seed. A number is a finite one, given by its value. A string is given
  by the bytes of its UTF-8 form, so it is a well-formed one, with no lone surrogate;
  the characters that JSON.stringify treats specially are all single bytes there.
\<close>

datatype json =
    JNull
  | JBool bool
  | JNum real
  | JStr string
  | JArr "json list"
  | JObj "(string \<times> json) list"

text \<open>
  What \<^verbatim>\<open>require("../config/config_loader")\<close> yields: the four fields that
  constant.js destructures. The loader itself is not part of the sources; its result is
  an input here. An object (the storage seed) is a list of its own enumerable
  properties in enumeration order.
\<close>

record creds =
  username :: string
  password :: string

record locators =
  login_page :: string
  agreement :: string
  login_field :: string
  login_btn :: string
  password_field :: string
  buy_now :: string
  go_to_cart :: string
  checkout :: string
  checkbox :: string
  pay :: string
  ordering :: string

record config =
  locators :: locators
  target_product :: string

record config_loader =
  creds :: creds
  cookie :: "json list"
  storage :: "(string \<times> json) list"
  config :: config

text \<open>The object that constant.js exports.\<close>

record CREDS =
  USERNAME :: string
  PASSWORD :: string

record LOCATORS =
  LOGIN_PAGE :: string
  AGREEMENT :: string
  LOGIN_FIELD :: string
  LOGIN_BTN :: string
  PASSWORD_FIELD :: string
  BUY_NOW :: string
  GO_TO_CART :: string
  CHECKOUT :: string
  CHECKBOX :: string
  PAY :: string
  ORDERING :: string

record CONSTANTS =
  CREDS :: CREDS
  LOCATORS :: LOCATORS
  TARGET_PRODUCT :: string
  COOKIE :: "json list"
  STORAGE :: "(string \<times> json) list"

definition module_exports :: "config_loader \<Rightarrow> CONSTANTS" where
  "module_exports l =
     \<lparr> CREDS = \<lparr> USERNAME = username (creds l), PASSWORD = password (creds l) \<rparr>,
       LOCATORS =
         \<lparr> LOGIN_PAGE = login_page (locators (config l)),
           AGREEMENT = agreement (locators (config l)),
           LOGIN_FIELD = login_field (locators (config l)),
           LOGIN_BTN = login_btn (locators (config l)),
           PASSWORD_FIELD = password_field (locators (config l)),
           BUY_NOW = buy_now (locators (config l)),
           GO_TO_CART = go_to_cart (locators (config l)),
           CHECKOUT = checkout (locators (config l)),
           CHECKBOX = checkbox (locators (config l)),
           PAY = pay (locators (config l)),
           ORDERING = ordering (locators (config l)) \<rparr>,
       TARGET_PRODUCT = target_product (config l),
       COOKIE = cookie l,
       STORAGE = storage l \<rparr>"

section \<open>The page side: scripts passed to page.evaluate\<close>

text \<open>
  A thrown value is kept as a text. For a rejected operation of the flow it is the text
  that string concatenation gives the value, which is all the flow ever does with one
  (part_000, line 120). Inside a page script it is what the page throws; the one
  exception that the scripts raise themselves, the TypeError of a property set on
  undefined, is kept by its name, since its message is the engine's.
\<close>

type_synonym js_error = string

subsection \<open>JSON.stringify\<close>

definition digit_char :: "nat \<Rightarrow> char" where
  "digit_char d = ''0123456789abcdef'' ! (d mod 16)"

text \<open>
  QuoteJSONString: the quotation mark and the reverse solidus are escaped with a
  reverse solidus, the control characters have the short escapes b, t, n, f, r or
  the four-digit form, every other byte stands for itself.
\<close>

definition escape_char :: "char \<Rightarrow> string" where
  "escape_char c =
     (if c = CHR 0x22 then [CHR 0x5C, CHR 0x22]
      else if c = CHR 0x5C then [CHR 0x5C, CHR 0x5C]
      else if c = CHR 0x08 then [CHR 0x5C, CHR ''b'']
      else if c = CHR 0x09 then [CHR 0x5C, CHR ''t'']
      else if c = CHR 0x0A then [CHR 0x5C, CHR ''n'']
      else if c = CHR 0x0C then [CHR 0x5C, CHR ''f'']
      else if c = CHR 0x0D then [CHR 0x5C, CHR ''r'']
      else if (of_char c :: nat) < 32
        then [CHR 0x5C, CHR ''u'', CHR ''0'', CHR ''0'',
              digit_char (of_char c div 16), digit_char (of_char c mod 16)]
      else [c])"

definition quote :: "string \<Rightarrow> string" where
  "quote s = CHR 0x22 # concat (map escape_char s) @ [CHR 0x22]"

fun join :: "string \<Rightarrow> string list \<Rightarrow> string" where
  "join sep [] = []"
| "join sep [x] = x"
| "join sep (x # y # ys) = x @ sep @ join sep (y # ys)"

text \<open>
  \<open>JSON_stringify num v\<close> is \<^verbatim>\<open>JSON.stringify(v)\<close>, with no indentation. The text
  of a finite number is the language's Number::toString, which prints floating-point
  numbers; it is the parameter \<open>num\<close>.
\<close>

primrec JSON_stringify :: "(real \<Rightarrow> string) \<Rightarrow> json \<Rightarrow> string" where
  "JSON_stringify num JNull = ''null''"
| "JSON_stringify num (JBool b) = (if b then ''true'' else ''false'')"
| "JSON_stringify num (JNum r) = num r"
| "JSON_stringify num (JStr s) = quote s"
| "JSON_stringify num (JArr xs) = ''['' @ join '','' (map (JSON_stringify num) xs) @ '']''"
| "JSON_stringify num (JObj ms) =
     ''{'' @ join '','' (map (\<lambda>(k, t). quote k @ '':'' @ t)
                             (map (map_prod id (JSON_stringify num)) ms)) @ ''}''"

subsection \<open>The page: local storage and the styled elements of the document\<close>

text \<open>
  \<open>localStorage\<close> holds the stored items. \<open>refuses m key v\<close> is the storage's answer to
  \<^verbatim>\<open>setItem(key, v)\<close> when it holds \<open>m\<close>: the exception it throws (a
  QuotaExceededError when the item does not fit, for one), or \<open>None\<close> when it takes
  the item. \<open>querySelector\<close> is what \<^verbatim>\<open>document.querySelector\<close> answers for a
  selector when the script runs: it throws on a selector it cannot parse, and otherwise
  returns null (\<open>None\<close>) or the first matching element. \<open>style\<close> is the style object
  of an element, as the values of its declarations by the script names of the CSS
  properties, or \<open>None\<close> for an element that has no \<^verbatim>\<open>style\<close> property.
\<close>

record page =
  localStorage :: "string \<rightharpoonup> string"
  refuses :: "(string \<rightharpoonup> string) \<Rightarrow> string \<Rightarrow> string \<Rightarrow> js_error option"
  querySelector :: "string \<Rightarrow> js_error + nat option"
  style :: "nat \<Rightarrow> (string \<rightharpoonup> string) option"

text \<open>
  How a script ends: it returns, or it throws; either way the page keeps what the
  script has done to it up to there.
\<close>

datatype script_end = Returned page | Raised js_error page

fun and_then :: "script_end \<Rightarrow> (page \<Rightarrow> script_end) \<Rightarrow> script_end" where
  "and_then (Returned p) f = f p"
| "and_then (Raised e p) f = Raised e p"

definition setItem :: "string \<Rightarrow> string \<Rightarrow> page \<Rightarrow> script_end" where
  "setItem key v p =
     (case refuses p (localStorage p) key v of
        Some e \<Rightarrow> Raised e p
      | None \<Rightarrow> Returned (p\<lparr>localStorage := (localStorage p)(key \<mapsto> v)\<rparr>))"

text \<open>
  \<^verbatim>\<open>btn.style.prop = v\<close>: reading \<^verbatim>\<open>style\<close> of an element that has none gives
  undefined, and setting a property of undefined throws a TypeError.
\<close>

definition set_style :: "nat \<Rightarrow> string \<Rightarrow> string \<Rightarrow> page \<Rightarrow> script_end" where
  "set_style el prop v p =
     (case style p el of
        None \<Rightarrow> Raised ''TypeError'' p
      | Some st \<Rightarrow> Returned (p\<lparr>style := (style p)(el := Some (st(prop \<mapsto> v)))\<rparr>))"

text \<open>
  part_000, lines 36-40: the script that seeds local storage. The loop visits the
  properties of its argument in enumeration order and reads each one's value; an
  exception of \<^verbatim>\<open>setItem\<close> ends it.
\<close>

fun seed_script :: "(real \<Rightarrow> string) \<Rightarrow> (string \<times> json) list \<Rightarrow> page \<Rightarrow> script_end" where
  "seed_script num [] p = Returned p"
| "seed_script num ((key, v) # rest) p =
     (case setItem key (JSON_stringify num v) p of
        Returned p' \<Rightarrow> seed_script num rest p'
      | Raised e p' \<Rightarrow> Raised e p')"

text \<open>part_000, lines 62-70: the script that restyles the go-to-cart control.\<close>

definition highlight_script :: "string \<Rightarrow> page \<Rightarrow> script_end" where
  "highlight_script selector p =
     (case querySelector p selector of
        Inl err \<Rightarrow> Raised err p
      | Inr None \<Rightarrow> Returned p
      | Inr (Some btn) \<Rightarrow>
          and_then (set_style btn ''position'' ''fixed'' p) (\<lambda>p.
          and_then (set_style btn ''zIndex'' ''9999'' p) (\<lambda>p.
          and_then (set_style btn ''opacity'' ''1'' p) (\<lambda>p.
          set_style btn ''display'' ''block'' p))))"

datatype page_script =
    SeedStorage "(string \<times> json) list"
  | Highlight string

fun run_script :: "(real \<Rightarrow> string) \<Rightarrow> page_script \<Rightarrow> page \<Rightarrow> script_end" where
  "run_script num (SeedStorage seed) p = seed_script num seed p"
| "run_script num (Highlight selector) p = highlight_script selector p"

section \<open>The checkout flow (part_000)\<close>

subsection \<open>The outside world: browser controller, timer, clock, log\<close>

record wait_opts =
  timeout :: "nat option"
  state :: "string option"
  visible :: "bool option"

text \<open>
  The awaited operations of the flow, with their arguments: \<open>Launch h\<close> is
  \<^verbatim>\<open>puppeteer.launch({headless: h})\<close>, \<open>LocatorClick sel f\<close> is
  \<^verbatim>\<open>page.locator(sel).click()\<close>, with \<^verbatim>\<open>{force: true}\<close> when \<open>f\<close> holds,
  \<open>WaitForNavigation u\<close> carries the \<^verbatim>\<open>waitUntil\<close> option, \<open>Delay\<close> is the
  timer of the utilities module.
\<close>

datatype call =
    Launch bool
  | NewPage
  | Goto string
  | SetViewport nat nat
  | LocatorClick string bool
  | SetCookie "json list"
  | Evaluate page_script
  | Reload
  | WaitForSelector string wait_opts
  | WaitForNavigation "string option"
  | Delay nat
  | Hover string
  | Close

datatype outcome = Resolved | Rejected js_error

datatype level = Info | Warn | Error

datatype event = Call call outcome | Log level string

text \<open>
  The collaborators are not part of the sources, so they are a parameter: any
  deterministic controller with a state of its own, which answers each awaited
  operation by resolving or rejecting. \<open>url\<close> is the synchronous
  \<^verbatim>\<open>page.url()\<close>, \<open>now\<close> is \<^verbatim>\<open>performance.now()\<close>, and
  \<open>elapsed_text t0 t1\<close> is the text of \<^verbatim>\<open>${t1 - t0}\<close>: the subtraction and
  the printing of floating-point numbers are left to the environment.
\<close>

record 'b env =
  perform :: "call \<Rightarrow> 'b \<Rightarrow> outcome \<times> 'b"
  url :: "'b \<Rightarrow> string"
  now :: "'b \<Rightarrow> real"
  elapsed_text :: "real \<Rightarrow> real \<Rightarrow> string"

text \<open>What a run has done so far: the controller's state and the events in order.\<close>

record 'b world =
  ctl :: 'b
  trace :: "event list"

text \<open>
  A statement either completes, or throws, or (the step-6 loop only) is still
  looping when the allowance of loop rounds is used up.
\<close>

datatype 'w result = Ok 'w | Threw js_error 'w | Polling 'w

type_synonym 'b stmt = "'b world \<Rightarrow> 'b world result"

fun world_of :: "'w result \<Rightarrow> 'w" where
  "world_of (Ok w) = w"
| "world_of (Threw e w) = w"
| "world_of (Polling w) = w"

definition await :: "'b env \<Rightarrow> call \<Rightarrow> 'b stmt" where
  "await env c w =
     (case perform env c (ctl w) of
        (Resolved, b) \<Rightarrow> Ok \<lparr> ctl = b, trace = trace w @ [Call c Resolved] \<rparr>
      | (Rejected e, b) \<Rightarrow> Threw e \<lparr> ctl = b, trace = trace w @ [Call c (Rejected e)] \<rparr>)"

definition emit :: "level \<Rightarrow> string \<Rightarrow> 'b world \<Rightarrow> 'b world" where
  "emit l m w = w\<lparr> trace := trace w @ [Log l m] \<rparr>"

definition log_info :: "string \<Rightarrow> 'b stmt" where
  "log_info m w = Ok (emit Info m w)"

definition log_warn :: "string \<Rightarrow> 'b stmt" where
  "log_warn m w = Ok (emit Warn m w)"

definition log_error :: "string \<Rightarrow> 'b stmt" where
  "log_error m w = Ok (emit Error m w)"

text \<open>Statements in sequence: the first one that does not complete ends the block.\<close>

fun exec :: "'b stmt list \<Rightarrow> 'b stmt" where
  "exec [] w = Ok w"
| "exec (s # ss) w =
     (case s w of
        Ok w' \<Rightarrow> exec ss w'
      | Threw e w' \<Rightarrow> Threw e w'
      | Polling w' \<Rightarrow> Polling w')"

definition try_catch :: "'b stmt \<Rightarrow> (js_error \<Rightarrow> 'b stmt) \<Rightarrow> 'b stmt" where
  "try_catch block handler w =
     (case block w of
        Ok w' \<Rightarrow> Ok w'
      | Threw e w' \<Rightarrow> handler e w'
      | Polling w' \<Rightarrow> Polling w')"

subsection \<open>The flow\<close>

definition buy_wait :: "CONSTANTS \<Rightarrow> call" where
  "buy_wait C =
     WaitForSelector (BUY_NOW (LOCATORS C)) \<lparr> timeout = Some 3000, state = None, visible = None \<rparr>"

text \<open>
  part_000, lines 47-56. The flag is the loop's \<^verbatim>\<open>found\<close>; each round of the loop uses
  one unit of \<open>fuel\<close>, and a loop that has used it all up is \<open>Polling\<close>.
\<close>

fun poll :: "nat \<Rightarrow> 'b env \<Rightarrow> CONSTANTS \<Rightarrow> bool \<Rightarrow> 'b stmt" where
  "poll fuel env C True w = Ok w"
| "poll 0 env C False w = Polling w"
| "poll (Suc fuel) env C False w =
     (case await env (buy_wait C) w of
        Ok w' \<Rightarrow> poll fuel env C True (emit Info ''[+] ADD_TO_CART button found!'' w')
      | Threw e w' \<Rightarrow> poll fuel env C False (emit Warn ''[-] ADD_TO_CART not available, retrying...'' w')
      | Polling w' \<Rightarrow> Polling w')"

text \<open>part_000, lines 72-79: the guarded go-to-cart wait and forced click.\<close>

definition go_to_cart_wait :: "CONSTANTS \<Rightarrow> call" where
  "go_to_cart_wait C =
     WaitForSelector (GO_TO_CART (LOCATORS C))
       \<lparr> timeout = Some 5000, state = Some ''attached'', visible = None \<rparr>"

definition go_to_cart_block :: "'b env \<Rightarrow> CONSTANTS \<Rightarrow> 'b stmt" where
  "go_to_cart_block env C =
     try_catch
       (exec
         [ await env (go_to_cart_wait C),
           await env (LocatorClick (GO_TO_CART (LOCATORS C)) True),
           log_info ''[+] GO_TO_CART button found and clicked!'' ])
       (\<lambda>error. log_warn ''[-] GO_TO_CART not available, retrying...'')"

text \<open>part_000, lines 96-104: the pay wait stands before the guarded forced click.\<close>

definition pay_wait :: "CONSTANTS \<Rightarrow> call" where
  "pay_wait C =
     WaitForSelector (PAY (LOCATORS C))
       \<lparr> timeout = Some 8000, state = None, visible = Some True \<rparr>"

definition pay_click_block :: "'b env \<Rightarrow> CONSTANTS \<Rightarrow> 'b stmt" where
  "pay_click_block env C =
     try_catch
       (exec
         [ await env (LocatorClick (PAY (LOCATORS C)) True),
           log_info ''[+] PAY button clicked'' ])
       (\<lambda>error. log_warn ''[-] pay button not clicked'')"

text \<open>
  part_000, lines 10-118: the statements of the try block, one entry per statement,
  in source order. Positions count from 0: the agreement click is entry 6, the
  loop entry 14, the go-to-cart block entry 18, the checkbox wait entry 20, the
  checkout wait entry 23, the pay wait entry 30, the pay click block entry 32, the
  hover entry 33, the close entry 42.
\<close>

definition body :: "nat \<Rightarrow> 'b env \<Rightarrow> CONSTANTS \<Rightarrow> real \<Rightarrow> 'b stmt list" where
  "body fuel env C start =
     [ await env (Launch False),
       await env NewPage,
       await env (Goto (TARGET_PRODUCT C)),
       log_info ''[+] Open login page'',
       await env (SetViewport 1080 1024),
       log_info ''[+] setViewport to 1080x1024'',
       await env (LocatorClick (AGREEMENT (LOCATORS C)) False),
       log_info ''[+] accepted agreement'',
       await env (SetCookie (COOKIE C)),
       log_info ''[+] set cookie'',
       await env (Evaluate (SeedStorage (STORAGE C))),
       log_info ''[+] set local storage'',
       await env Reload,
       log_info ''[+] reload web page'',
       poll fuel env C False,
       await env (LocatorClick (BUY_NOW (LOCATORS C)) False),
       log_info ''[+] ADD_TO_CART clicked'',
       await env (Evaluate (Highlight (GO_TO_CART (LOCATORS C)))),
       go_to_cart_block env C,
       await env (WaitForNavigation None),
       await env (WaitForSelector (CHECKBOX (LOCATORS C))
         \<lparr> timeout = None, state = None, visible = None \<rparr>),
       await env (LocatorClick (CHECKBOX (LOCATORS C)) False),
       log_info ''[+] CHECKBOX found and and clicked!'',
       await env (WaitForSelector (CHECKOUT (LOCATORS C))
         \<lparr> timeout = Some 1000, state = None, visible = None \<rparr>),
       log_info ''[+] CHECKOUT button found'',
       await env (LocatorClick (CHECKOUT (LOCATORS C)) False),
       log_info ''[+] Proceeding to checkout'',
       await env (WaitForNavigation (Some ''networkidle2'')),
       await env (Delay 5000),
       log_info ''[+] waiting for page to load'',
       await env (pay_wait C),
       log_info ''[+] found PAY button'',
       pay_click_block env C,
       await env (Hover (ORDERING (LOCATORS C))),
       log_info ''[+] BUY!!'',
       await env (WaitForNavigation None),
       (\<lambda>w. log_info (''[+] QR URL: '' @ url env (ctl w)) w),
       log_info (''[+] ALL THING DONE! LET'' @ [CHR 0x27] @ ''S PAY!''),
       log_warn ''[!] CTRL+C When Everything Done!'',
       (\<lambda>w. log_warn (''[!] Total processing time: ''
                       @ elapsed_text env start (now env (ctl w)) @ '' ms'') w),
       (\<lambda>w. log_info (''[+] QR URL: '' @ url env (ctl w)) w),
       await env (Delay 999999),
       await env Close ]"

text \<open>
  part_000, lines 6-123: the clock is read, the block runs, and the one handler
  of the function logs whatever the block threw.
\<close>

definition run :: "nat \<Rightarrow> 'b env \<Rightarrow> CONSTANTS \<Rightarrow> 'b \<Rightarrow> 'b world result" where
  "run fuel env C b0 =
     try_catch (exec (body fuel env C (now env b0)))
       (\<lambda>error. log_error (''[-] Error: '' @ error))
       \<lparr> ctl = b0, trace = [] \<rparr>"

subsection \<open>Reading a run\<close>

text \<open>The awaited operations of a run, in order.\<close>

fun calls_of :: "event list \<Rightarrow> call list" where
  "calls_of [] = []"
| "calls_of (Call c r # es) = c # calls_of es"
| "calls_of (Log l m # es) = calls_of es"

text \<open>
  A test double for the collaborators: its state counts the operations it has
  answered, and \<open>rejects c n\<close> says whether operation \<open>c\<close>, arriving as number
  \<open>n\<close>, is rejected.
\<close>

definition double :: "(call \<Rightarrow> nat \<Rightarrow> bool) \<Rightarrow> nat env" where
  "double rejects =
     \<lparr> perform = (\<lambda>c n. (if rejects c n then Rejected ''TimeoutError'' else Resolved, Suc n)),
       url = (\<lambda>n. ''https://shop.test/pay''),
       now = (\<lambda>n. 0),
       elapsed_text = (\<lambda>t0 t1. ''42'') \<rparr>"

text \<open>The double that rejects exactly the operation \<open>c\<close>, whenever it arrives.\<close>

definition rejecting :: "call \<Rightarrow> nat env" where
  "rejecting c = double (\<lambda>c' n. c' = c)"

text \<open>Sample constants, with a seed of two properties.\<close>

definition shop :: CONSTANTS where
  "shop =
     \<lparr> CREDS = \<lparr> USERNAME = ''user'', PASSWORD = ''secret'' \<rparr>,
       LOCATORS =
         \<lparr> LOGIN_PAGE = ''#login'', AGREEMENT = ''#agree'', LOGIN_FIELD = ''#name'',
           LOGIN_BTN = ''#go'', PASSWORD_FIELD = ''#pw'', BUY_NOW = ''#buy'',
           GO_TO_CART = ''#cart'', CHECKOUT = ''#checkout'', CHECKBOX = ''#box'',
           PAY = ''#pay'', ORDERING = ''#order'' \<rparr>,
       TARGET_PRODUCT = ''https://shop.test/item'',
       COOKIE = [JObj [(''name'', JStr ''sid''), (''value'', JStr ''1'')]],
       STORAGE = [(''a'', JNum 1), (''b'', JStr ''x'')] \<rparr>"

text \<open>The log lines of a run, in order.\<close>

fun logs_of :: "event list \<Rightarrow> (level \<times> string) list" where
  "logs_of [] = []"
| "logs_of (Call c r # es) = logs_of es"
| "logs_of (Log l m # es) = (l, m) # logs_of es"

text \<open>
  \<open>reaches fuel env C b0 k w\<close>: the run from controller state \<open>b0\<close> completes the
  entries before position \<open>k\<close> of the block and stands in \<open>w\<close> before entry \<open>k\<close>.
\<close>

definition reaches :: "nat \<Rightarrow> 'b env \<Rightarrow> CONSTANTS \<Rightarrow> 'b \<Rightarrow> nat \<Rightarrow> 'b world \<Rightarrow> bool" where
  "reaches fuel env C b0 k w =
     (exec (take k (body fuel env C (now env b0))) \<lparr> ctl = b0, trace = [] \<rparr> = Ok w)"

fun is_error_log :: "event \<Rightarrow> bool" where
  "is_error_log (Log Error m) = True"
| "is_error_log ev = False"

text \<open>An event that is neither a close call nor an error line.\<close>

fun quiet :: "event \<Rightarrow> bool" where
  "quiet (Call c r) = (c \<noteq> Close)"
| "quiet (Log l m) = (l \<noteq> Error)"

text \<open>A launch that is not headless, a viewport of 1080 by 1024, or any other event.\<close>

fun fixed_args :: "event \<Rightarrow> bool" where
  "fixed_args (Call (Launch h) r) = (\<not> h)"
| "fixed_args (Call (SetViewport wd ht) r) = (wd = 1080 \<and> ht = 1024)"
| "fixed_args ev = True"



text \<open>
  Statements that only add events: \<open>tame P s\<close> says that \<open>s\<close> appends events
  satisfying \<open>P\<close>, and that when it throws, the last event is the rejected call
  whose value is thrown.
\<close>

definition extends :: "(event \<Rightarrow> bool) \<Rightarrow> 'b world \<Rightarrow> 'b world \<Rightarrow> bool" where
  "extends P w w' = (\<exists>xs. trace w' = trace w @ xs \<and> list_all P xs)"

definition tame :: "(event \<Rightarrow> bool) \<Rightarrow> 'b stmt \<Rightarrow> bool" where
  "tame P s =
     (\<forall>w. case s w of
            Ok w' \<Rightarrow> extends P w w'
          | Polling w' \<Rightarrow> extends P w w'
          | Threw e w' \<Rightarrow>
              (\<exists>xs c. trace w' = trace w @ xs @ [Call c (Rejected e)]
                 \<and> list_all P xs \<and> P (Call c (Rejected e))))"

text \<open>
  The reader of a JSON string literal: the text between the quotation marks back to
  the string, \<open>None\<close> when the text is no such literal or names a character that is
  not a single byte.
\<close>

definition hex_val :: "char \<Rightarrow> nat option" where
  "hex_val c =
     (let n = (of_char c :: nat) in
      if 48 \<le> n \<and> n \<le> 57 then Some (n - 48)
      else if 97 \<le> n \<and> n \<le> 102 then Some (n - 87)
      else if 65 \<le> n \<and> n \<le> 70 then Some (n - 55)
      else None)"

fun unescape :: "string \<Rightarrow> string option" where
  "unescape [] = Some []"
| "unescape (c # cs) =
     (if c = CHR 0x5C then
        (case cs of
           [] \<Rightarrow> None
         | d # ds \<Rightarrow>
             if d = CHR 0x22 \<or> d = CHR 0x5C \<or> d = CHR ''/'' then map_option ((#) d) (unescape ds)
             else if d = CHR ''b'' then map_option ((#) (CHR 0x08)) (unescape ds)
             else if d = CHR ''t'' then map_option ((#) (CHR 0x09)) (unescape ds)
             else if d = CHR ''n'' then map_option ((#) (CHR 0x0A)) (unescape ds)
             else if d = CHR ''f'' then map_option ((#) (CHR 0x0C)) (unescape ds)
             else if d = CHR ''r'' then map_option ((#) (CHR 0x0D)) (unescape ds)
             else if d = CHR ''u'' then
               (case ds of
                  h3 # h2 # h1 # h0 # r \<Rightarrow>
                    (case (hex_val h3, hex_val h2, hex_val h1, hex_val h0) of
                       (Some 0, Some 0, Some a, Some b) \<Rightarrow>
                         map_option ((#) (char_of (a * 16 + b))) (unescape r)
                     | _ \<Rightarrow> None)
                | _ \<Rightarrow> None)
             else None)
      else if c = CHR 0x22 \<or> (of_char c :: nat) < 32 then None
      else map_option ((#) c) (unescape cs))"

text \<open>
  A stand-in for the language's printer of numbers in the sample runs: the decimal text
  of the integer part, which is what Number::toString gives for an integer below ten to
  the 21 in magnitude. The samples use it on such integers only.
\<close>

fun show_nat :: "nat \<Rightarrow> string" where
  "show_nat n = (if n < 10 then [digit_char n] else show_nat (n div 10) @ [digit_char (n mod 10)])"

declare show_nat.simps [simp del]

definition show_int :: "int \<Rightarrow> string" where
  "show_int i = (if i < 0 then CHR ''-'' # show_nat (nat (- i)) else show_nat (nat i))"

definition integer_text :: "real \<Rightarrow> string" where
  "integer_text r = show_int \<lfloor>r\<rfloor>"

text \<open>
  A sample page: one selector finds element 7, one finds element 9, which has no
  style object, one cannot be parsed, every other selector finds nothing; nothing is
  stored or styled yet, and the storage takes every item. \<open>cramped_page\<close> is the same
  with a storage that takes no item of more than two bytes, key and value together.
\<close>

definition sample_page :: page where
  "sample_page =
     \<lparr> localStorage = Map.empty,
       refuses = (\<lambda>m key v. None),
       querySelector = (\<lambda>sel. if sel = ''#cart'' then Inr (Some 7)
                               else if sel = ''#odd'' then Inr (Some 9)
                               else if sel = ''##'' then Inl ''SyntaxError'' else Inr None),
       style = (\<lambda>el. if el = 9 then None else Some Map.empty) \<rparr>"

definition cramped_page :: page where
  "cramped_page =
     sample_page\<lparr> refuses := (\<lambda>m key v. if 2 < length key + length v
                                         then Some ''QuotaExceededError'' else None) \<rparr>"

section \<open>Properties\<close>

text \<open>
  C7. The constant adapter only renames: every exported field is the loader's
  same-named field, unchanged.
\<close>

theorem constant_adapter_remaps:
  "USERNAME (CREDS (module_exports l)) = username (creds l)
   \<and> PASSWORD (CREDS (module_exports l)) = password (creds l)
   \<and> LOGIN_PAGE (LOCATORS (module_exports l)) = login_page (locators (config l))
   \<and> AGREEMENT (LOCATORS (module_exports l)) = agreement (locators (config l))
   \<and> LOGIN_FIELD (LOCATORS (module_exports l)) = login_field (locators (config l))
   \<and> LOGIN_BTN (LOCATORS (module_exports l)) = login_btn (locators (config l))
   \<and> PASSWORD_FIELD (LOCATORS (module_exports l)) = password_field (locators (config l))
   \<and> BUY_NOW (LOCATORS (module_exports l)) = buy_now (locators (config l))
   \<and> GO_TO_CART (LOCATORS (module_exports l)) = go_to_cart (locators (config l))
   \<and> CHECKOUT (LOCATORS (module_exports l)) = checkout (locators (config l))
   \<and> CHECKBOX (LOCATORS (module_exports l)) = checkbox (locators (config l))
   \<and> PAY (LOCATORS (module_exports l)) = pay (locators (config l))
   \<and> ORDERING (LOCATORS (module_exports l)) = ordering (locators (config l))
   \<and> TARGET_PRODUCT (module_exports l) = target_product (config l)
   \<and> COOKIE (module_exports l) = cookie l
   \<and> STORAGE (module_exports l) = storage l"
  by (simp add: module_exports_def)

subsection \<open>Statements only add events\<close>

lemma extends_refl: "extends P w w"
  by (simp add: extends_def)

lemma extends_trans: "extends P w w' \<Longrightarrow> extends P w' w'' \<Longrightarrow> extends P w w''"
  by (auto simp: extends_def)

lemma tame_await: "(\<And>r. P (Call c r)) \<Longrightarrow> tame P (await env c)"
  unfolding tame_def await_def extends_def
  by (auto split: prod.splits outcome.splits)

lemma tame_log_info: "(\<And>w. P (Log Info (f w))) \<Longrightarrow> tame P (\<lambda>w. log_info (f w) w)"
  unfolding tame_def log_info_def emit_def extends_def by simp

lemma tame_log_warn: "(\<And>w. P (Log Warn (f w))) \<Longrightarrow> tame P (\<lambda>w. log_warn (f w) w)"
  unfolding tame_def log_warn_def emit_def extends_def by simp

lemma tame_exec: "list_all (tame P) ss \<Longrightarrow> tame P (exec ss)"
proof (induction ss)
  case Nil
  show ?case by (simp add: tame_def extends_refl)
next
  case (Cons s ss)
  then have s: "tame P s" and ss: "tame P (exec ss)" by simp_all
  show ?case
    unfolding tame_def
  proof
    fix w
    show "case exec (s # ss) w of Ok w' \<Rightarrow> extends P w w' | Polling w' \<Rightarrow> extends P w w'
          | Threw e w' \<Rightarrow> (\<exists>xs c. trace w' = trace w @ xs @ [Call c (Rejected e)] \<and> list_all P xs \<and> P (Call c (Rejected e)))"
    proof (cases "s w")
      case (Ok w1)
      with s have e1: "extends P w w1" by (auto simp: tame_def dest: spec[of _ w])
      from ss have "case exec ss w1 of Ok w' \<Rightarrow> extends P w1 w' | Polling w' \<Rightarrow> extends P w1 w'
          | Threw e w' \<Rightarrow> (\<exists>xs c. trace w' = trace w1 @ xs @ [Call c (Rejected e)] \<and> list_all P xs \<and> P (Call c (Rejected e)))"
        by (simp add: tame_def)
      with e1 Ok show ?thesis
        by (cases "exec ss w1") (auto simp: extends_def)
    next
      case (Threw e w1)
      with s show ?thesis by (auto simp: tame_def dest: spec[of _ w])
    next
      case (Polling w1)
      with s show ?thesis by (auto simp: tame_def dest: spec[of _ w])
    qed
  qed
qed


lemma tame_try_catch:
  assumes "tame P s" and "\<And>e. tame P (h e)"
  shows "tame P (try_catch s h)"
  unfolding tame_def
proof
  fix w
  from assms(1) have sw: "case s w of Ok w' \<Rightarrow> extends P w w' | Polling w' \<Rightarrow> extends P w w'
          | Threw e w' \<Rightarrow> (\<exists>xs c. trace w' = trace w @ xs @ [Call c (Rejected e)] \<and> list_all P xs \<and> P (Call c (Rejected e)))"
    by (simp add: tame_def)
  show "case try_catch s h w of Ok w' \<Rightarrow> extends P w w' | Polling w' \<Rightarrow> extends P w w'
          | Threw e w' \<Rightarrow> (\<exists>xs c. trace w' = trace w @ xs @ [Call c (Rejected e)] \<and> list_all P xs \<and> P (Call c (Rejected e)))"
  proof (cases "s w")
    case (Ok w1)
    with sw show ?thesis by (simp add: try_catch_def)
  next
    case (Polling w1)
    with sw show ?thesis by (simp add: try_catch_def)
  next
    case (Threw e w1)
    with sw obtain xs c where t1: "trace w1 = trace w @ xs @ [Call c (Rejected e)]"
      and xs: "list_all P xs" and pc: "P (Call c (Rejected e))" by auto
    from t1 xs pc have e1: "extends P w w1" by (simp add: extends_def)
    from assms(2)[of e] have "case h e w1 of Ok w' \<Rightarrow> extends P w1 w' | Polling w' \<Rightarrow> extends P w1 w'
          | Threw e' w' \<Rightarrow> (\<exists>xs c. trace w' = trace w1 @ xs @ [Call c (Rejected e')] \<and> list_all P xs \<and> P (Call c (Rejected e')))"
      by (simp add: tame_def)
    with e1 Threw show ?thesis
      by (cases "h e w1") (auto simp: try_catch_def extends_def)
  qed
qed

lemma tame_poll:
  assumes "\<And>r. P (Call (buy_wait C) r)"
    and "P (Log Info ''[+] ADD_TO_CART button found!'')"
    and "P (Log Warn ''[-] ADD_TO_CART not available, retrying...'')"
  shows "tame P (poll fuel env C found)"
proof -
  have "extends P w (world_of (poll fuel env C found w)) \<and> (\<forall>e w'. poll fuel env C found w \<noteq> Threw e w')"
    for w
  proof (induction fuel arbitrary: found w)
    case 0
    show ?case by (cases found) (simp_all add: extends_refl)
  next
    case (Suc fuel)
    show ?case
    proof (cases found)
      case True
      then show ?thesis by (simp add: extends_refl)
    next
      case False
      show ?thesis
      proof (cases "fst (perform env (buy_wait C) (ctl w))")
        case Resolved
        define w2 where "w2 = emit Info ''[+] ADD_TO_CART button found!''
          \<lparr> ctl = snd (perform env (buy_wait C) (ctl w)), trace = trace w @ [Call (buy_wait C) Resolved] \<rparr>"
        from Resolved have step: "poll (Suc fuel) env C False w = poll fuel env C True w2"
          by (cases "perform env (buy_wait C) (ctl w)") (simp add: await_def w2_def)
        have "extends P w w2"
          using assms(1,2) by (simp add: w2_def emit_def extends_def)
        with step False Suc[where found=True and w=w2] show ?thesis by (auto intro: extends_trans)
      next
        case (Rejected e)
        define w2 where "w2 = emit Warn ''[-] ADD_TO_CART not available, retrying...''
          \<lparr> ctl = snd (perform env (buy_wait C) (ctl w)), trace = trace w @ [Call (buy_wait C) (Rejected e)] \<rparr>"
        from Rejected have step: "poll (Suc fuel) env C False w = poll fuel env C False w2"
          by (cases "perform env (buy_wait C) (ctl w)") (simp add: await_def w2_def)
        have "extends P w w2"
          using assms(1,3) by (simp add: w2_def emit_def extends_def)
        with step False Suc[where found=False and w=w2] show ?thesis by (auto intro: extends_trans)
      qed
    qed
  qed
  then have a: "extends P w (world_of (poll fuel env C found w))"
    and b: "poll fuel env C found w \<noteq> Threw e w'" for w e w'
    by blast+
  show ?thesis
    unfolding tame_def
  proof
    fix w
    from a[of w] b[of w] show "case poll fuel env C found w of Ok w' \<Rightarrow> extends P w w'
        | Polling w' \<Rightarrow> extends P w w'
        | Threw e w' \<Rightarrow> (\<exists>xs c. trace w' = trace w @ xs @ [Call c (Rejected e)] \<and> list_all P xs \<and> P (Call c (Rejected e)))"
      by (cases "poll fuel env C found w") auto
  qed
qed


lemma tame_log_info_const: "P (Log Info m) \<Longrightarrow> tame P (log_info m)"
  unfolding tame_def log_info_def emit_def extends_def by simp

lemma tame_log_warn_const: "P (Log Warn m) \<Longrightarrow> tame P (log_warn m)"
  unfolding tame_def log_warn_def emit_def extends_def by simp

lemma tame_go_to_cart_block:
  assumes "\<And>r. P (Call (go_to_cart_wait C) r)"
    and "\<And>r. P (Call (LocatorClick (GO_TO_CART (LOCATORS C)) True) r)"
    and "\<And>m. P (Log Info m)" and "\<And>m. P (Log Warn m)"
  shows "tame P (go_to_cart_block env C)"
  unfolding go_to_cart_block_def
  by (intro tame_try_catch tame_exec) (simp_all add: assms tame_await tame_log_info_const tame_log_warn_const)

lemma tame_pay_click_block:
  assumes "\<And>r. P (Call (LocatorClick (PAY (LOCATORS C)) True) r)"
    and "\<And>m. P (Log Info m)" and "\<And>m. P (Log Warn m)"
  shows "tame P (pay_click_block env C)"
  unfolding pay_click_block_def
  by (intro tame_try_catch tame_exec) (simp_all add: assms tame_await tame_log_info_const tame_log_warn_const)

lemmas tame_intros = tame_await tame_log_info tame_log_warn tame_log_info_const tame_log_warn_const
  tame_poll tame_go_to_cart_block tame_pay_click_block

lemma tame_body_fixed_args: "list_all (tame fixed_args) (body fuel env C start)"
  by (simp add: body_def tame_intros buy_wait_def go_to_cart_wait_def pay_wait_def)

lemma tame_body_quiet: "list_all (tame quiet) (butlast (body fuel env C start))"
  by (simp add: body_def tame_intros buy_wait_def go_to_cart_wait_def pay_wait_def)


subsection \<open>Sequencing and positions in the block\<close>

lemma tame_body_any: "list_all (tame (\<lambda>ev. True)) (body fuel env C start)"
  by (simp add: body_def tame_intros)

lemma tame_extends: "tame P s \<Longrightarrow> extends P w (world_of (s w))"
  unfolding tame_def extends_def
  by (cases "s w") (auto dest!: spec[of _ w])

lemma exec_append:
  "exec (xs @ ys) w =
     (case exec xs w of Ok w' \<Rightarrow> exec ys w' | Threw e w' \<Rightarrow> Threw e w' | Polling w' \<Rightarrow> Polling w')"
  by (induction xs arbitrary: w) (auto split: result.splits)

lemma exec_split:
  "exec ss w =
     (case exec (take k ss) w of Ok w' \<Rightarrow> exec (drop k ss) w' | Threw e w' \<Rightarrow> Threw e w'
      | Polling w' \<Rightarrow> Polling w')"
  using exec_append[of "take k ss" "drop k ss" w] by simp

lemma exec_take_Suc:
  "k < length ss \<Longrightarrow>
   exec (take (Suc k) ss) w =
     (case exec (take k ss) w of Ok w' \<Rightarrow> (ss ! k) w' | Threw e w' \<Rightarrow> Threw e w'
      | Polling w' \<Rightarrow> Polling w')"
  by (simp add: take_Suc_conv_app_nth exec_append split: result.splits)

lemma exec_Threw_at:
  assumes "k < length ss" and "exec (take k ss) w0 = Ok w" and "(ss ! k) w = Threw e w'"
  shows "exec ss w0 = Threw e w'"
proof -
  from assms have "exec (take (Suc k) ss) w0 = Threw e w'"
    by (simp add: exec_take_Suc)
  then show ?thesis
    using exec_split[of ss w0 "Suc k"] by simp
qed

lemma length_body: "length (body fuel env C start) = 43"
  by (simp add: body_def)

lemma list_all_take: "list_all P xs \<Longrightarrow> list_all P (take k xs)"
  by (auto simp: list_all_iff dest: in_set_takeD)

lemma list_all_drop: "list_all P xs \<Longrightarrow> list_all P (drop k xs)"
  by (auto simp: list_all_iff dest: in_set_dropD)

lemma run_Threw:
  "exec (body fuel env C (now env b0)) \<lparr> ctl = b0, trace = [] \<rparr> = Threw e w \<Longrightarrow>
   run fuel env C b0 = Ok (w\<lparr> trace := trace w @ [Log Error (''[-] Error: '' @ e)] \<rparr>)"
  by (simp add: run_def try_catch_def log_error_def emit_def)

lemma run_extends_body:
  "\<exists>rest. trace (world_of (run fuel env C b0)) =
     trace (world_of (exec (body fuel env C (now env b0)) \<lparr> ctl = b0, trace = [] \<rparr>)) @ rest
     \<and> list_all is_error_log rest"
  by (cases "exec (body fuel env C (now env b0)) \<lparr> ctl = b0, trace = [] \<rparr>")
     (simp_all add: run_def try_catch_def log_error_def emit_def)

lemma reaches_quiet:
  assumes "reaches fuel env C b0 k w" and "k \<le> 42"
  shows "list_all quiet (trace w)"
proof -
  from assms(2) have "take k (body fuel env C (now env b0)) = take k (butlast (body fuel env C (now env b0)))"
    by (simp add: take_butlast length_body)
  then have "tame quiet (exec (take k (body fuel env C (now env b0))))"
    using tame_body_quiet[of fuel env C "now env b0"] by (simp add: tame_exec list_all_take)
  from tame_extends[OF this, of "\<lparr> ctl = b0, trace = [] \<rparr>"] assms(1)
  show ?thesis by (simp add: reaches_def extends_def)
qed

lemma run_after_reaches:
  assumes "reaches fuel env C b0 k w"
  shows "\<exists>rest. trace (world_of (run fuel env C b0)) = trace w @ rest"
proof -
  let ?B = "body fuel env C (now env b0)" and ?w0 = "\<lparr> ctl = b0, trace = [] \<rparr>"
  from assms have "exec ?B ?w0 = exec (drop k ?B) w"
    using exec_split[of ?B ?w0 k] by (simp add: reaches_def)
  moreover have "tame (\<lambda>ev. True) (exec (drop k ?B))"
    by (simp add: tame_exec list_all_drop tame_body_any)
  from tame_extends[OF this, of w]
  obtain xs where "trace (world_of (exec (drop k ?B) w)) = trace w @ xs"
    by (auto simp: extends_def)
  ultimately show ?thesis
    using run_extends_body[of fuel env C b0] by auto
qed

lemma run_next_call:
  assumes "reaches fuel env C b0 k w" and "k < 43"
    and "body fuel env C (now env b0) ! k = await env c"
  shows "\<exists>r rest. trace (world_of (run fuel env C b0)) = trace w @ Call c r # rest"
proof -
  let ?B = "body fuel env C (now env b0)" and ?w0 = "\<lparr> ctl = b0, trace = [] \<rparr>"
  from assms have step: "exec (take (Suc k) ?B) ?w0 = await env c w"
    by (simp add: exec_take_Suc length_body reaches_def)
  obtain r b where p: "perform env c (ctl w) = (r, b)" by (cases "perform env c (ctl w)")
  show ?thesis
  proof (cases r)
    case Resolved
    with p step have "reaches fuel env C b0 (Suc k) \<lparr> ctl = b, trace = trace w @ [Call c Resolved] \<rparr>"
      by (simp add: reaches_def await_def)
    from run_after_reaches[OF this] show ?thesis by auto
  next
    case (Rejected e)
    with p step have "exec (take (Suc k) ?B) ?w0 = Threw e \<lparr> ctl = b, trace = trace w @ [Call c (Rejected e)] \<rparr>"
      by (simp add: await_def)
    then have "exec ?B ?w0 = Threw e \<lparr> ctl = b, trace = trace w @ [Call c (Rejected e)] \<rparr>"
      using exec_split[of ?B ?w0 "Suc k"] by simp
    from run_Threw[OF this] show ?thesis by simp
  qed
qed

lemma run_fatal_at:
  assumes "reaches fuel env C b0 k w" and "k < 43"
    and "body fuel env C (now env b0) ! k = await env c"
    and "perform env c (ctl w) = (Rejected e, b)"
  shows "run fuel env C b0 =
    Ok \<lparr> ctl = b, trace = trace w @ [Call c (Rejected e), Log Error (''[-] Error: '' @ e)] \<rparr>"
proof -
  from assms have "exec (body fuel env C (now env b0)) \<lparr> ctl = b0, trace = [] \<rparr>
      = Threw e \<lparr> ctl = b, trace = trace w @ [Call c (Rejected e)] \<rparr>"
    by (intro exec_Threw_at[where k=k and w=w]) (simp_all add: length_body reaches_def await_def)
  from run_Threw[OF this] show ?thesis by simp
qed

subsection \<open>Failures that end the run\<close>

lemma quiet_no_error_log: "list_all quiet xs \<Longrightarrow> filter is_error_log xs = []"
proof (induction xs)
  case Nil
  show ?case by simp
next
  case (Cons ev xs)
  then show ?case by (cases ev rule: is_error_log.cases) simp_all
qed

text \<open>
  C4. When the run stands before the agreement click (entry 6), the checkbox wait
  (entry 20) or the checkout wait (entry 23) and the controller rejects that operation,
  the run ends with the rejected operation followed by the handler's error line: that is
  the only error line of the run, and nothing runs after it.
\<close>

theorem fatal_waits_reach_handler:
  assumes "reaches fuel env C b0 k w"
    and "(k, c) \<in> set
      [ (6, LocatorClick (AGREEMENT (LOCATORS C)) False),
        (20, WaitForSelector (CHECKBOX (LOCATORS C)) \<lparr> timeout = None, state = None, visible = None \<rparr>),
        (23, WaitForSelector (CHECKOUT (LOCATORS C)) \<lparr> timeout = Some 1000, state = None, visible = None \<rparr>) ]"
    and "perform env c (ctl w) = (Rejected e, b)"
  shows "body fuel env C (now env b0) ! k = await env c
    \<and> run fuel env C b0 =
        Ok \<lparr> ctl = b, trace = trace w @ [Call c (Rejected e), Log Error (''[-] Error: '' @ e)] \<rparr>
    \<and> filter is_error_log (trace w @ [Call c (Rejected e), Log Error (''[-] Error: '' @ e)])
        = [Log Error (''[-] Error: '' @ e)]"
proof -
  from assms(2) have k: "k < 43" "k \<le> 42" by auto
  from assms(2) have entry: "body fuel env C (now env b0) ! k = await env c"
    by (auto simp: body_def)
  from reaches_quiet[OF assms(1) k(2)] have "filter is_error_log (trace w) = []"
    by (rule quiet_no_error_log)
  with entry run_fatal_at[OF assms(1) k(1) entry assms(3)] show ?thesis by simp
qed


lemma reaches_step:
  "reaches fuel env C b0 k w \<Longrightarrow> k < 43 \<Longrightarrow> (body fuel env C (now env b0) ! k) w = Ok w' \<Longrightarrow>
   reaches fuel env C b0 (Suc k) w'"
  unfolding reaches_def by (simp add: exec_take_Suc length_body)

text \<open>
  C6, as amended. When the block throws, the handler adds one error line and the run is
  over: the last event of the block is the rejected operation, and no close operation
  and no error line stands before it. So nothing closes the browser after a failure,
  and a run that fails holds a close operation only when the close is what failed.
\<close>

theorem uncaught_failure_only_logs:
  assumes "exec (body fuel env C (now env b0)) \<lparr> ctl = b0, trace = [] \<rparr> = Threw e w"
  shows "run fuel env C b0 = Ok (w\<lparr> trace := trace w @ [Log Error (''[-] Error: '' @ e)] \<rparr>)
    \<and> (\<exists>pre c. trace w = pre @ [Call c (Rejected e)] \<and> list_all quiet pre)"
proof -
  let ?B = "body fuel env C (now env b0)" and ?w0 = "\<lparr> ctl = b0, trace = [] \<rparr>"
  have last: "?B = butlast ?B @ [await env Close]"
    by (simp add: body_def)
  have front: "tame quiet (exec (butlast ?B))"
    by (simp add: tame_exec tame_body_quiet)
  have shape: "\<exists>pre c. trace w = pre @ [Call c (Rejected e)] \<and> list_all quiet pre"
  proof (cases "exec (butlast ?B) ?w0")
    case (Ok w1)
    from front have "extends quiet ?w0 w1"
      using Ok by (auto simp: tame_def dest!: spec[of _ ?w0])
    then have q: "list_all quiet (trace w1)" by (simp add: extends_def)
    from assms Ok have "await env Close w1 = Threw e w"
      by (subst (asm) last) (simp add: exec_append split: result.splits)
    then have "trace w = trace w1 @ [Call Close (Rejected e)]"
      by (auto simp: await_def split: prod.splits outcome.splits)
    with q show ?thesis by blast
  next
    case (Threw e1 w1)
    from assms Threw have eq: "e1 = e" "w1 = w"
      by (subst (asm) last, simp add: exec_append)+
    from front Threw show ?thesis
      unfolding eq by (auto simp: tame_def dest!: spec[of _ ?w0])
  next
    case (Polling w1)
    from assms Polling show ?thesis
      by (subst (asm) last) (simp add: exec_append)
  qed
  with run_Threw[OF assms] show ?thesis by simp
qed

text \<open>
  C8. Whatever the constants and the controller, the first event of a run is the launch
  with headless off, every launch in the run has headless off and every viewport
  operation is 1080 by 1024; and a run that gets to entry 4 performs that viewport
  operation next.
\<close>

theorem launch_and_viewport_fixed:
  "(\<exists>r rest. trace (world_of (run fuel env C b0)) = Call (Launch False) r # rest)
   \<and> list_all fixed_args (trace (world_of (run fuel env C b0)))
   \<and> (reaches fuel env C b0 4 w \<longrightarrow>
        (\<exists>r rest. trace (world_of (run fuel env C b0)) = trace w @ Call (SetViewport 1080 1024) r # rest))"
proof (intro conjI impI)
  have "reaches fuel env C b0 0 \<lparr> ctl = b0, trace = [] \<rparr>"
    by (simp add: reaches_def)
  from run_next_call[OF this, of "Launch False"]
  show "\<exists>r rest. trace (world_of (run fuel env C b0)) = Call (Launch False) r # rest"
    by (simp add: body_def)
next
  let ?B = "body fuel env C (now env b0)" and ?w0 = "\<lparr> ctl = b0, trace = [] \<rparr>"
  have "tame fixed_args (exec ?B)"
    by (simp add: tame_exec tame_body_fixed_args)
  from tame_extends[OF this, of ?w0] have "list_all fixed_args (trace (world_of (exec ?B ?w0)))"
    by (simp add: extends_def)
  moreover have "list_all is_error_log rest \<Longrightarrow> list_all fixed_args rest" for rest
  proof (induction rest)
    case Nil
    show ?case by simp
  next
    case (Cons ev rest)
    then show ?case by (cases ev rule: is_error_log.cases) simp_all
  qed
  ultimately show "list_all fixed_args (trace (world_of (run fuel env C b0)))"
    using run_extends_body[of fuel env C b0] by auto
next
  assume "reaches fuel env C b0 4 w"
  from run_next_call[OF this, of "SetViewport 1080 1024"]
  show "\<exists>r rest. trace (world_of (run fuel env C b0)) = trace w @ Call (SetViewport 1080 1024) r # rest"
    by (simp add: body_def)
qed

subsection \<open>Failures that the flow survives\<close>

lemma go_to_cart_block_timeout:
  "perform env (go_to_cart_wait C) (ctl w) = (Rejected e, b) \<Longrightarrow>
   go_to_cart_block env C w =
     Ok \<lparr> ctl = b, trace = trace w @ [Call (go_to_cart_wait C) (Rejected e),
                                       Log Warn ''[-] GO_TO_CART not available, retrying...''] \<rparr>"
  by (simp add: go_to_cart_block_def try_catch_def await_def log_warn_def emit_def)

lemma pay_click_block_failure:
  "perform env (LocatorClick (PAY (LOCATORS C)) True) (ctl w) = (Rejected e, b) \<Longrightarrow>
   pay_click_block env C w =
     Ok \<lparr> ctl = b, trace = trace w @ [Call (LocatorClick (PAY (LOCATORS C)) True) (Rejected e),
                                       Log Warn ''[-] pay button not clicked''] \<rparr>"
  by (simp add: pay_click_block_def try_catch_def await_def log_warn_def emit_def)

text \<open>
  C2, as amended. When the step-8 go-to-cart wait is rejected, the run logs the warning
  and goes on to the navigation wait of step 9; when the step-12 pay click is rejected,
  the run logs the warning and goes on to the hover. The step-12 pay wait stands before
  the guarded block: when it is rejected, the run ends in the handler of the function.
\<close>

theorem guarded_failures_continue:
  "(reaches fuel env C b0 18 w \<and> perform env (go_to_cart_wait C) (ctl w) = (Rejected e, b) \<longrightarrow>
      (\<exists>r rest. trace (world_of (run fuel env C b0)) =
          trace w @ [ Call (go_to_cart_wait C) (Rejected e),
                      Log Warn ''[-] GO_TO_CART not available, retrying...'',
                      Call (WaitForNavigation None) r ] @ rest))
   \<and> (reaches fuel env C b0 32 w \<and> perform env (LocatorClick (PAY (LOCATORS C)) True) (ctl w) = (Rejected e, b) \<longrightarrow>
      (\<exists>r rest. trace (world_of (run fuel env C b0)) =
          trace w @ [ Call (LocatorClick (PAY (LOCATORS C)) True) (Rejected e),
                      Log Warn ''[-] pay button not clicked'',
                      Call (Hover (ORDERING (LOCATORS C))) r ] @ rest))
   \<and> (reaches fuel env C b0 30 w \<and> perform env (pay_wait C) (ctl w) = (Rejected e, b) \<longrightarrow>
      run fuel env C b0 =
        Ok \<lparr> ctl = b, trace = trace w @ [Call (pay_wait C) (Rejected e), Log Error (''[-] Error: '' @ e)] \<rparr>)"
proof (intro conjI impI; elim conjE)
  let ?B = "body fuel env C (now env b0)"
  assume r: "reaches fuel env C b0 18 w" and p: "perform env (go_to_cart_wait C) (ctl w) = (Rejected e, b)"
  have "?B ! 18 = go_to_cart_block env C" by (simp add: body_def)
  with p have "reaches fuel env C b0 (Suc 18)
      \<lparr> ctl = b, trace = trace w @ [Call (go_to_cart_wait C) (Rejected e),
                                     Log Warn ''[-] GO_TO_CART not available, retrying...''] \<rparr>"
    by (intro reaches_step[OF r]) (simp_all add: go_to_cart_block_timeout)
  from run_next_call[OF this, of "WaitForNavigation None"]
  show "\<exists>r rest. trace (world_of (run fuel env C b0)) =
          trace w @ [ Call (go_to_cart_wait C) (Rejected e),
                      Log Warn ''[-] GO_TO_CART not available, retrying...'',
                      Call (WaitForNavigation None) r ] @ rest"
    by (simp add: body_def)
next
  let ?B = "body fuel env C (now env b0)"
  assume r: "reaches fuel env C b0 32 w"
    and p: "perform env (LocatorClick (PAY (LOCATORS C)) True) (ctl w) = (Rejected e, b)"
  have "?B ! 32 = pay_click_block env C" by (simp add: body_def)
  with p have "reaches fuel env C b0 (Suc 32)
      \<lparr> ctl = b, trace = trace w @ [Call (LocatorClick (PAY (LOCATORS C)) True) (Rejected e),
                                     Log Warn ''[-] pay button not clicked''] \<rparr>"
    by (intro reaches_step[OF r]) (simp_all add: pay_click_block_failure)
  from run_next_call[OF this, of "Hover (ORDERING (LOCATORS C))"]
  show "\<exists>r rest. trace (world_of (run fuel env C b0)) =
          trace w @ [ Call (LocatorClick (PAY (LOCATORS C)) True) (Rejected e),
                      Log Warn ''[-] pay button not clicked'',
                      Call (Hover (ORDERING (LOCATORS C))) r ] @ rest"
    by (simp add: body_def)
next
  assume r: "reaches fuel env C b0 30 w" and p: "perform env (pay_wait C) (ctl w) = (Rejected e, b)"
  show "run fuel env C b0 =
        Ok \<lparr> ctl = b, trace = trace w @ [Call (pay_wait C) (Rejected e), Log Error (''[-] Error: '' @ e)] \<rparr>"
    by (rule run_fatal_at[OF r _ _ p]) (simp_all add: body_def)
qed


subsection \<open>The step-6 loop\<close>






text \<open>
  C1. When the controller resolves every operation, a run with at least one round of
  the loop completes, and its controller operations are, in this order: launch (not
  headless), new page, navigate to the target product, viewport 1080 by 1024, click the
  agreement selector, set the configured cookies, evaluate the storage seed script,
  reload, then the operations of steps 6 to 14, ending with the long idle and the close.
\<close>

theorem all_resolving_order:
  assumes "\<forall>c b. fst (perform env c b) = Resolved"
  shows "\<exists>w. run (Suc fuel) env C b0 = Ok w
    \<and> calls_of (trace w) =
      [ Launch False,
        NewPage,
        Goto (TARGET_PRODUCT C),
        SetViewport 1080 1024,
        LocatorClick (AGREEMENT (LOCATORS C)) False,
        SetCookie (COOKIE C),
        Evaluate (SeedStorage (STORAGE C)),
        Reload,
        WaitForSelector (BUY_NOW (LOCATORS C)) \<lparr> timeout = Some 3000, state = None, visible = None \<rparr>,
        LocatorClick (BUY_NOW (LOCATORS C)) False,
        Evaluate (Highlight (GO_TO_CART (LOCATORS C))),
        WaitForSelector (GO_TO_CART (LOCATORS C))
          \<lparr> timeout = Some 5000, state = Some ''attached'', visible = None \<rparr>,
        LocatorClick (GO_TO_CART (LOCATORS C)) True,
        WaitForNavigation None,
        WaitForSelector (CHECKBOX (LOCATORS C)) \<lparr> timeout = None, state = None, visible = None \<rparr>,
        LocatorClick (CHECKBOX (LOCATORS C)) False,
        WaitForSelector (CHECKOUT (LOCATORS C)) \<lparr> timeout = Some 1000, state = None, visible = None \<rparr>,
        LocatorClick (CHECKOUT (LOCATORS C)) False,
        WaitForNavigation (Some ''networkidle2''),
        Delay 5000,
        WaitForSelector (PAY (LOCATORS C)) \<lparr> timeout = Some 8000, state = None, visible = Some True \<rparr>,
        LocatorClick (PAY (LOCATORS C)) True,
        Hover (ORDERING (LOCATORS C)),
        WaitForNavigation None,
        Delay 999999,
        Close ]"
proof -
  have aw: "await env c w = Ok \<lparr> ctl = snd (perform env c (ctl w)), trace = trace w @ [Call c Resolved] \<rparr>"
    for c and w :: "'a world"
  proof -
    from assms have "fst (perform env c (ctl w)) = Resolved" by blast
    then show ?thesis by (cases "perform env c (ctl w)") (simp add: await_def)
  qed
  show ?thesis
    by (simp add: run_def body_def aw try_catch_def go_to_cart_block_def pay_click_block_def
        log_info_def log_warn_def emit_def buy_wait_def go_to_cart_wait_def pay_wait_def)
qed

subsection \<open>The credentials\<close>

lemma poll_cong_buy_wait:
  assumes "buy_wait C = buy_wait C'"
  shows "poll fuel env C found w = poll fuel env C' found w"
proof (induction fuel arbitrary: found w)
  case 0
  show ?case by (cases found) simp_all
next
  case (Suc fuel)
  show ?case
  proof (cases found)
    case True
    then show ?thesis by simp
  next
    case False
    then have f: "found = False" by simp
    show ?thesis
      unfolding f poll.simps assms
      by (cases "await env (buy_wait C') w") (simp_all only: result.case Suc.IH)
  qed
qed

lemma buy_wait_ignores_CREDS: "buy_wait (C\<lparr> CREDS := x \<rparr>) = buy_wait C"
  by (simp add: buy_wait_def)

lemma poll_ignores_CREDS: "poll fuel env (C\<lparr> CREDS := x \<rparr>) False = poll fuel env C False"
  by (rule ext) (rule poll_cong_buy_wait[OF buy_wait_ignores_CREDS])

lemma blocks_ignore_CREDS:
  "go_to_cart_block env (C\<lparr> CREDS := x \<rparr>) = go_to_cart_block env C"
  "pay_click_block env (C\<lparr> CREDS := x \<rparr>) = pay_click_block env C"
  "go_to_cart_wait (C\<lparr> CREDS := x \<rparr>) = go_to_cart_wait C"
  "pay_wait (C\<lparr> CREDS := x \<rparr>) = pay_wait C"
  by (simp_all add: go_to_cart_block_def pay_click_block_def go_to_cart_wait_def pay_wait_def)

lemma body_ignores_CREDS: "body fuel env (C\<lparr> CREDS := x \<rparr>) start = body fuel env C start"
  unfolding body_def poll_ignores_CREDS blocks_ignore_CREDS by simp


text \<open>
  C9. Changing the credentials, in the exported constants or in the loaded settings,
  changes nothing of a run: the same result, with the same controller operations and the
  same log lines.
\<close>

theorem credentials_never_read:
  "run fuel env (C\<lparr> CREDS := x \<rparr>) b0 = run fuel env C b0
   \<and> run fuel env (module_exports (l\<lparr> creds := k \<rparr>)) b0 = run fuel env (module_exports l) b0"
proof -
  have "module_exports (l\<lparr> creds := k \<rparr>)
      = (module_exports l)\<lparr> CREDS := \<lparr> USERNAME = username k, PASSWORD = password k \<rparr> \<rparr>"
    by (simp add: module_exports_def)
  then show ?thesis
    by (simp add: run_def body_ignores_CREDS)
qed

subsection \<open>The page scripts\<close>

lemma hex_val_digit_char: "k < 16 \<Longrightarrow> hex_val (digit_char k) = Some k"
proof -
  assume "k < 16"
  then have "k < Suc (Suc (Suc (Suc (Suc (Suc (Suc (Suc (Suc (Suc (Suc (Suc (Suc (Suc (Suc (Suc (0))))))))))))))))" by simp
  then show ?thesis
    unfolding less_Suc_eq by (auto simp: digit_char_def hex_val_def)
qed

lemma unescape_escape_char:
  "unescape (escape_char c @ rest) = map_option ((#) c) (unescape rest)"
proof -
  consider (special) "c \<in> {CHR 0x22, CHR 0x5C, CHR 0x08, CHR 0x09, CHR 0x0A, CHR 0x0C, CHR 0x0D}"
    | (control) "c \<notin> {CHR 0x22, CHR 0x5C, CHR 0x08, CHR 0x09, CHR 0x0A, CHR 0x0C, CHR 0x0D}"
        "(of_char c :: nat) < 32"
    | (plain) "c \<notin> {CHR 0x22, CHR 0x5C, CHR 0x08, CHR 0x09, CHR 0x0A, CHR 0x0C, CHR 0x0D}"
        "\<not> (of_char c :: nat) < 32"
    by blast
  then show ?thesis
  proof cases
    case special
    then show ?thesis by (auto simp: escape_char_def)
  next
    case control
    let ?n = "of_char c :: nat"
    from control(2) have d: "?n div 16 < 16" "?n mod 16 < 16" by simp_all
    have same: "char_of (?n div 16 * 16 + ?n mod 16) = c" by simp
    have zero: "hex_val CHR ''0'' = Some 0" by (simp add: hex_val_def)
    from control show ?thesis
      by (simp add: escape_char_def zero hex_val_digit_char[OF d(1)] hex_val_digit_char[OF d(2)] same)
  next
    case plain
    then show ?thesis by (simp add: escape_char_def)
  qed
qed

lemma unescape_escaped: "unescape (concat (map escape_char s)) = Some s"
  by (induction s) (simp_all add: unescape_escape_char)


lemma setItem_Returned:
  "setItem key t p = Returned p1 \<longleftrightarrow>
     refuses p (localStorage p) key t = None \<and> p1 = p\<lparr>localStorage := (localStorage p)(key \<mapsto> t)\<rparr>"
  by (auto simp: setItem_def split: option.splits)

lemma setItem_Raised:
  "setItem key t p = Raised e p1 \<longleftrightarrow> refuses p (localStorage p) key t = Some e \<and> p1 = p"
  by (auto simp: setItem_def split: option.splits)

lemma seed_script_refuses_Returned:
  "seed_script num seed p = Returned p' \<Longrightarrow> refuses p' = refuses p"
proof (induction seed arbitrary: p)
  case Nil
  then show ?case by simp
next
  case (Cons kv seed)
  obtain key v where kv: "kv = (key, v)" by (cases kv)
  from Cons.prems kv obtain p1 where s: "setItem key (JSON_stringify num v) p = Returned p1"
    and r: "seed_script num seed p1 = Returned p'"
    by (auto split: script_end.splits)
  from s have "refuses p1 = refuses p" by (simp add: setItem_Returned)
  with Cons.IH[OF r] show ?case by simp
qed

lemma seed_script_completes:
  "(\<forall>m key t. refuses p m key t = None) \<Longrightarrow> \<exists>p'. seed_script num seed p = Returned p'"
proof (induction seed arbitrary: p)
  case Nil
  show ?case by simp
next
  case (Cons kv seed)
  obtain key v where kv: "kv = (key, v)" by (cases kv)
  define p1 where "p1 = p\<lparr>localStorage := (localStorage p)(key \<mapsto> JSON_stringify num v)\<rparr>"
  from Cons.prems have s: "setItem key (JSON_stringify num v) p = Returned p1"
    by (simp add: setItem_Returned p1_def)
  from Cons.prems have "\<forall>m key t. refuses p1 m key t = None" by (simp add: p1_def)
  from Cons.IH[OF this] s kv show ?case by simp
qed

lemma seed_script_other:
  "seed_script num seed p = Returned p' \<Longrightarrow> k \<notin> fst ` set seed \<Longrightarrow>
   localStorage p' k = localStorage p k"
proof (induction seed arbitrary: p)
  case Nil
  then show ?case by simp
next
  case (Cons kv seed)
  obtain key v where kv: "kv = (key, v)" by (cases kv)
  from Cons.prems(1) kv obtain p1 where s: "setItem key (JSON_stringify num v) p = Returned p1"
    and r: "seed_script num seed p1 = Returned p'"
    by (auto split: script_end.splits)
  from Cons.prems(2) kv have "k \<noteq> key" and "k \<notin> fst ` set seed" by auto
  with Cons.IH[OF r] s show ?case by (simp add: setItem_Returned)
qed

lemma seed_script_stored:
  "distinct (map fst seed) \<Longrightarrow> (k, v) \<in> set seed \<Longrightarrow> seed_script num seed p = Returned p' \<Longrightarrow>
   localStorage p' k = Some (JSON_stringify num v)"
proof (induction seed arbitrary: p)
  case Nil
  then show ?case by simp
next
  case (Cons kv seed)
  obtain key t where kv: "kv = (key, t)" by (cases kv)
  from Cons.prems(3) kv obtain p1 where s: "setItem key (JSON_stringify num t) p = Returned p1"
    and r: "seed_script num seed p1 = Returned p'"
    by (auto split: script_end.splits)
  show ?case
  proof (cases "(k, v) \<in> set seed")
    case True
    with Cons.prems(1) Cons.IH[OF _ True r] show ?thesis by simp
  next
    case False
    with Cons.prems(1,2) kv have eq: "key = k" "t = v" and fresh: "k \<notin> fst ` set seed"
      by auto
    from seed_script_other[OF r fresh] s show ?thesis
      by (simp add: setItem_Returned eq)
  qed
qed

lemma seed_script_raised:
  "seed_script num seed p = Raised e p' \<Longrightarrow>
   \<exists>before key v later. seed = before @ (key, v) # later
      \<and> seed_script num before p = Returned p'
      \<and> refuses p (localStorage p') key (JSON_stringify num v) = Some e"
proof (induction seed arbitrary: p)
  case Nil
  then show ?case by simp
next
  case (Cons kv seed)
  obtain key v where kv: "kv = (key, v)" by (cases kv)
  show ?case
  proof (cases "setItem key (JSON_stringify num v) p")
    case (Raised e1 p1)
    with Cons.prems kv have "e1 = e" "p1 = p'" by simp_all
    with Raised have "refuses p (localStorage p') key (JSON_stringify num v) = Some e" "p' = p"
      by (simp_all add: setItem_Raised)
    then have "kv # seed = [] @ (key, v) # seed \<and> seed_script num [] p = Returned p'
        \<and> refuses p (localStorage p') key (JSON_stringify num v) = Some e"
      using kv by simp
    then show ?thesis by blast
  next
    case (Returned p1)
    with Cons.prems kv have r: "seed_script num seed p1 = Raised e p'" by simp
    from Returned have same: "refuses p1 = refuses p" by (simp add: setItem_Returned)
    from Cons.IH[OF r] obtain before key' v' later where
      "seed = before @ (key', v') # later" "seed_script num before p1 = Returned p'"
      "refuses p1 (localStorage p') key' (JSON_stringify num v') = Some e"
      by blast
    with Returned kv same have "kv # seed = (kv # before) @ (key', v') # later
        \<and> seed_script num (kv # before) p = Returned p'
        \<and> refuses p (localStorage p') key' (JSON_stringify num v') = Some e"
      by simp
    then show ?thesis by blast
  qed
qed

text \<open>
  C5, as amended. On a page whose storage takes every item the seed script completes.
  Whenever it completes, local storage holds, for every property of the seed (an object
  has each key once), the JSON text of its value. When it throws, the storage has
  refused one write with that exception: the properties before it are stored as if
  they were the whole seed, and the script has gone no further. The JSON text of a
  string is a literal that reads back as the string, the JSON text of a number is the
  language's text of it, and with 1 printed as 1 the texts of the example values and
  of a nested value are as written.
\<close>

theorem seed_script_stores_json:
  "((\<forall>m key t. refuses p m key t = None) \<longrightarrow>
      (\<exists>p'. run_script num (SeedStorage seed) p = Returned p'))
   \<and> (distinct (map fst seed) \<and> (k, v) \<in> set seed
        \<and> run_script num (SeedStorage seed) p = Returned p' \<longrightarrow>
      localStorage p' k = Some (JSON_stringify num v))
   \<and> (run_script num (SeedStorage seed) p = Raised e p' \<longrightarrow>
      (\<exists>before key t later. seed = before @ (key, t) # later
         \<and> run_script num (SeedStorage before) p = Returned p'
         \<and> refuses p (localStorage p') key (JSON_stringify num t) = Some e))
   \<and> (\<exists>lit. JSON_stringify num (JStr s) = CHR 0x22 # lit @ [CHR 0x22] \<and> unescape lit = Some s)
   \<and> JSON_stringify num (JNum r) = num r
   \<and> (num 1 = ''1'' \<longrightarrow>
        JSON_stringify num (JNum 1) = ''1''
        \<and> JSON_stringify num (JStr ''x'') = [CHR 0x22, CHR ''x'', CHR 0x22]
        \<and> JSON_stringify num
             (JObj [(''k'', JArr [JNull, JBool True, JNum 1]),
                    (''s'', JStr [CHR 0x22, CHR 0x5C, CHR 0x0A, CHR 0x1F, CHR ''/''])])
           = [CHR ''{'', CHR 0x22, CHR ''k'', CHR 0x22, CHR '':'',
                CHR ''['', CHR ''n'', CHR ''u'', CHR ''l'', CHR ''l'', CHR '','',
                  CHR ''t'', CHR ''r'', CHR ''u'', CHR ''e'', CHR '','', CHR ''1'', CHR '']'',
              CHR '','', CHR 0x22, CHR ''s'', CHR 0x22, CHR '':'',
                CHR 0x22, CHR 0x5C, CHR 0x22, CHR 0x5C, CHR 0x5C, CHR 0x5C, CHR ''n'',
                  CHR 0x5C, CHR ''u'', CHR ''0'', CHR ''0'', CHR ''1'', CHR ''f'', CHR ''/'', CHR 0x22,
              CHR ''}''])"
proof (intro conjI impI)
  assume "\<forall>m key t. refuses p m key t = None"
  then show "\<exists>p'. run_script num (SeedStorage seed) p = Returned p'"
    by (simp add: seed_script_completes)
next
  assume "distinct (map fst seed) \<and> (k, v) \<in> set seed
        \<and> run_script num (SeedStorage seed) p = Returned p'"
  then show "localStorage p' k = Some (JSON_stringify num v)"
    using seed_script_stored[of seed k v num p p'] by simp
next
  assume "run_script num (SeedStorage seed) p = Raised e p'"
  then show "\<exists>before key t later. seed = before @ (key, t) # later
         \<and> run_script num (SeedStorage before) p = Returned p'
         \<and> refuses p (localStorage p') key (JSON_stringify num t) = Some e"
    using seed_script_raised[of num seed p e p'] by simp
next
  show "\<exists>lit. JSON_stringify num (JStr s) = CHR 0x22 # lit @ [CHR 0x22] \<and> unescape lit = Some s"
    by (simp add: quote_def unescape_escaped)
next
  show "JSON_stringify num (JNum r) = num r" by simp
next
  assume "num 1 = ''1''"
  then show "JSON_stringify num (JNum 1) = ''1''" by simp
next
  show "JSON_stringify num (JStr ''x'') = [CHR 0x22, CHR ''x'', CHR 0x22]"
    by (simp add: quote_def escape_char_def)
next
  assume "num 1 = ''1''"
  then show "JSON_stringify num
             (JObj [(''k'', JArr [JNull, JBool True, JNum 1]),
                    (''s'', JStr [CHR 0x22, CHR 0x5C, CHR 0x0A, CHR 0x1F, CHR ''/''])])
           = [CHR ''{'', CHR 0x22, CHR ''k'', CHR 0x22, CHR '':'',
                CHR ''['', CHR ''n'', CHR ''u'', CHR ''l'', CHR ''l'', CHR '','',
                  CHR ''t'', CHR ''r'', CHR ''u'', CHR ''e'', CHR '','', CHR ''1'', CHR '']'',
              CHR '','', CHR 0x22, CHR ''s'', CHR 0x22, CHR '':'',
                CHR 0x22, CHR 0x5C, CHR 0x22, CHR 0x5C, CHR 0x5C, CHR 0x5C, CHR ''n'',
                  CHR 0x5C, CHR ''u'', CHR ''0'', CHR ''0'', CHR ''1'', CHR ''f'', CHR ''/'', CHR 0x22,
              CHR ''}'']"
    by (simp add: quote_def escape_char_def digit_char_def)
qed


text \<open>
  C10, as amended. When the query finds no element the highlight script changes nothing
  and completes. When it finds an element that has a style object, the script completes
  and the page differs only in that element's position, zIndex, opacity and display.
  When it finds an element without a style object, the script throws a TypeError and
  changes nothing; when the selector cannot be parsed, the script throws what the query
  throws.
\<close>

theorem highlight_guards_absence:
  "(querySelector p sel = Inr None \<longrightarrow> run_script num (Highlight sel) p = Returned p)
   \<and> (querySelector p sel = Inr (Some el) \<and> style p el = Some st \<longrightarrow>
        run_script num (Highlight sel) p =
          Returned (p\<lparr>style := (style p)(el := Some
            (st(''position'' \<mapsto> ''fixed'', ''zIndex'' \<mapsto> ''9999'',
                ''opacity'' \<mapsto> ''1'', ''display'' \<mapsto> ''block'')))\<rparr>))
   \<and> (querySelector p sel = Inr (Some el) \<and> style p el = None \<longrightarrow>
        run_script num (Highlight sel) p = Raised ''TypeError'' p)
   \<and> (querySelector p sel = Inl e \<longrightarrow> run_script num (Highlight sel) p = Raised e p)"
  by (simp add: highlight_script_def set_style_def)

text \<open>
  C5 as stated fails on a page whose storage refuses a write: with room for two
  bytes an item, the example seed stores \<open>a\<close>, then the write of
  \<open>b\<close> throws, and \<open>b\<close> is not stored.
\<close>

theorem seed_script_refused_write:
  "run_script integer_text (SeedStorage [(''a'', JNum 1), (''b'', JStr ''x'')]) cramped_page
     = Raised ''QuotaExceededError'' (cramped_page\<lparr>localStorage := [''a'' \<mapsto> ''1'']\<rparr>)
   \<and> localStorage (cramped_page\<lparr>localStorage := [''a'' \<mapsto> ''1'']\<rparr>) ''b'' = None"
  by (simp add: setItem_def cramped_page_def sample_page_def integer_text_def show_int_def
      show_nat.simps digit_char_def quote_def escape_char_def)

text \<open>
  C10 as stated fails for a match without a style object: the selector finds
  element 9, and the script throws instead of setting the four properties.
\<close>

theorem highlight_throws_without_style:
  "querySelector sample_page ''#odd'' = Inr (Some 9)
   \<and> run_script integer_text (Highlight ''#odd'') sample_page = Raised ''TypeError'' sample_page"
  by (simp add: highlight_script_def set_style_def sample_page_def)

text \<open>
  The seed with \<open>a\<close> at 1 and \<open>b\<close> at the string x: on the sample page the
  texts are 1 and the quoted x; on the cramped page the script stops at a refused write.
\<close>

theorem seed_script_stores_json_witness:
  "(\<exists>p'. run_script integer_text (SeedStorage [(''a'', JNum 1), (''b'', JStr ''x'')]) sample_page
          = Returned p'
      \<and> localStorage p' ''a'' = Some ''1''
      \<and> localStorage p' ''b'' = Some [CHR 0x22, CHR ''x'', CHR 0x22])
   \<and> (\<exists>before key t later.
        [(''a'', JNum 1), (''b'', JStr ''x'')] = before @ (key, t) # later
      \<and> run_script integer_text (SeedStorage before) cramped_page
          = Returned (cramped_page\<lparr>localStorage := [''a'' \<mapsto> ''1'']\<rparr>)
      \<and> refuses cramped_page [''a'' \<mapsto> ''1''] key (JSON_stringify integer_text t)
          = Some ''QuotaExceededError'')"
proof -
  let ?seed = "[(''a'', JNum 1), (''b'', JStr ''x'')]"
  have one: "integer_text 1 = ''1''"
    by (simp add: integer_text_def show_int_def show_nat.simps digit_char_def)
  have takes: "\<forall>m key t. refuses sample_page m key t = None"
    by (simp add: sample_page_def)
  have d: "distinct (map fst ?seed)" by simp
  from seed_script_stores_json[of sample_page integer_text ?seed] takes
  obtain p' where r: "run_script integer_text (SeedStorage ?seed) sample_page = Returned p'"
    by blast
  from seed_script_stores_json[of sample_page integer_text ?seed "''a''" "JNum 1" p'] d r one
  have a: "localStorage p' ''a'' = Some ''1''" by simp
  from seed_script_stores_json[of sample_page integer_text ?seed "''b''" "JStr ''x''" p'] d r one
  have b: "localStorage p' ''b'' = Some [CHR 0x22, CHR ''x'', CHR 0x22]" by simp
  have f: "run_script integer_text (SeedStorage ?seed) cramped_page
     = Raised ''QuotaExceededError'' (cramped_page\<lparr>localStorage := [''a'' \<mapsto> ''1'']\<rparr>)"
    by (simp add: setItem_def cramped_page_def sample_page_def integer_text_def show_int_def
      show_nat.simps digit_char_def quote_def escape_char_def)
  from seed_script_stores_json[of cramped_page integer_text ?seed _ _
      "cramped_page\<lparr>localStorage := [''a'' \<mapsto> ''1'']\<rparr>" "''QuotaExceededError''"] f
  have "\<exists>before key t later. ?seed = before @ (key, t) # later
      \<and> run_script integer_text (SeedStorage before) cramped_page
          = Returned (cramped_page\<lparr>localStorage := [''a'' \<mapsto> ''1'']\<rparr>)
      \<and> refuses cramped_page (localStorage (cramped_page\<lparr>localStorage := [''a'' \<mapsto> ''1'']\<rparr>))
            key (JSON_stringify integer_text t) = Some ''QuotaExceededError''"
    by blast
  then have "\<exists>before key t later. ?seed = before @ (key, t) # later
      \<and> run_script integer_text (SeedStorage before) cramped_page
          = Returned (cramped_page\<lparr>localStorage := [''a'' \<mapsto> ''1'']\<rparr>)
      \<and> refuses cramped_page [''a'' \<mapsto> ''1''] key (JSON_stringify integer_text t)
          = Some ''QuotaExceededError''"
    by simp
  with r a b show ?thesis by blast
qed

text \<open>
  The sample page: a selector that finds nothing, one that finds element 7, one that
  finds element 9 without a style object, and one that cannot be parsed.
\<close>

theorem highlight_guards_absence_witness:
  "run_script integer_text (Highlight ''#none'') sample_page = Returned sample_page
   \<and> run_script integer_text (Highlight ''#cart'') sample_page =
       Returned (sample_page\<lparr>style := (style sample_page)(7 := Some
         [''position'' \<mapsto> ''fixed'', ''zIndex'' \<mapsto> ''9999'',
          ''opacity'' \<mapsto> ''1'', ''display'' \<mapsto> ''block''])\<rparr>)
   \<and> run_script integer_text (Highlight ''#odd'') sample_page = Raised ''TypeError'' sample_page
   \<and> run_script integer_text (Highlight ''##'') sample_page = Raised ''SyntaxError'' sample_page"
proof -
  have q: "querySelector sample_page ''#none'' = Inr None"
    "querySelector sample_page ''#cart'' = Inr (Some 7)"
    "querySelector sample_page ''#odd'' = Inr (Some 9)"
    "querySelector sample_page ''##'' = Inl ''SyntaxError''"
    and st: "style sample_page 7 = Some Map.empty" "style sample_page 9 = None"
    by (simp_all add: sample_page_def)
  from highlight_guards_absence[where p=sample_page and num=integer_text and sel="''#none''" and el=7 and st=Map.empty and e="''SyntaxError''"] q(1)
  have a: "run_script integer_text (Highlight ''#none'') sample_page = Returned sample_page"
    by blast
  from highlight_guards_absence[where p=sample_page and num=integer_text and sel="''#cart''" and el=7 and st=Map.empty and e="''SyntaxError''"] q(2) st(1)
  have b: "run_script integer_text (Highlight ''#cart'') sample_page =
       Returned (sample_page\<lparr>style := (style sample_page)(7 := Some
         [''position'' \<mapsto> ''fixed'', ''zIndex'' \<mapsto> ''9999'',
          ''opacity'' \<mapsto> ''1'', ''display'' \<mapsto> ''block''])\<rparr>)"
    by blast
  from highlight_guards_absence[where p=sample_page and num=integer_text and sel="''#odd''" and el=9 and st=Map.empty and e="''SyntaxError''"] q(3) st(2)
  have c: "run_script integer_text (Highlight ''#odd'') sample_page = Raised ''TypeError'' sample_page"
    by blast
  from highlight_guards_absence[where p=sample_page and num=integer_text and sel="''##''" and el=7 and st=Map.empty and e="''SyntaxError''"] q(4)
  have d: "run_script integer_text (Highlight ''##'') sample_page = Raised ''SyntaxError'' sample_page"
    by blast
  from a b c d show ?thesis by blast
qed

subsection \<open>Runs against test doubles\<close>

lemmas flow_defs = run_def body_def double_def rejecting_def await_def shop_def log_info_def log_warn_def
  log_error_def emit_def buy_wait_def go_to_cart_wait_def pay_wait_def try_catch_def
  go_to_cart_block_def pay_click_block_def

text \<open>
  The double that resolves everything, on the sample constants.
\<close>

theorem all_resolving_order_witness:
  "(\<forall>c b. fst (perform (double (\<lambda>c n. False)) c b) = Resolved)
   \<and> (\<exists>w. run (Suc 0) (double (\<lambda>c n. False)) shop 0 = Ok w
      \<and> calls_of (trace w) =
      [ Launch False, NewPage, Goto ''https://shop.test/item'', SetViewport 1080 1024,
        LocatorClick ''#agree'' False,
        SetCookie [JObj [(''name'', JStr ''sid''), (''value'', JStr ''1'')]],
        Evaluate (SeedStorage [(''a'', JNum 1), (''b'', JStr ''x'')]),
        Reload,
        WaitForSelector ''#buy'' \<lparr> timeout = Some 3000, state = None, visible = None \<rparr>,
        LocatorClick ''#buy'' False,
        Evaluate (Highlight ''#cart''),
        WaitForSelector ''#cart'' \<lparr> timeout = Some 5000, state = Some ''attached'', visible = None \<rparr>,
        LocatorClick ''#cart'' True,
        WaitForNavigation None,
        WaitForSelector ''#box'' \<lparr> timeout = None, state = None, visible = None \<rparr>,
        LocatorClick ''#box'' False,
        WaitForSelector ''#checkout'' \<lparr> timeout = Some 1000, state = None, visible = None \<rparr>,
        LocatorClick ''#checkout'' False,
        WaitForNavigation (Some ''networkidle2''),
        Delay 5000,
        WaitForSelector ''#pay'' \<lparr> timeout = Some 8000, state = None, visible = Some True \<rparr>,
        LocatorClick ''#pay'' True,
        Hover ''#order'',
        WaitForNavigation None,
        Delay 999999,
        Close ])"
proof -
  have h: "\<forall>c b. fst (perform (double (\<lambda>c n. False)) c b) = Resolved"
    by (simp add: double_def)
  from all_resolving_order[OF h, of 0 shop 0] h show ?thesis
    by (simp add: shop_def)
qed

text \<open>
  Three doubles on the sample constants, one for each of the three operations.
\<close>

theorem fatal_waits_reach_handler_witness:
  "(\<exists>w. reaches (Suc 0) (rejecting (LocatorClick ''#agree'' False)) shop 0 6 w
      \<and> run (Suc 0) (rejecting (LocatorClick ''#agree'' False)) shop 0 =
          Ok \<lparr> ctl = 5, trace = trace w @ [ Call (LocatorClick ''#agree'' False) (Rejected ''TimeoutError''),
                                             Log Error ''[-] Error: TimeoutError'' ] \<rparr>)
   \<and> (\<exists>w. reaches (Suc 0) (rejecting (WaitForSelector ''#box'' \<lparr> timeout = None, state = None, visible = None \<rparr>)) shop 0 20 w
      \<and> run (Suc 0) (rejecting (WaitForSelector ''#box'' \<lparr> timeout = None, state = None, visible = None \<rparr>)) shop 0 =
          Ok \<lparr> ctl = 15, trace = trace w @ [ Call (WaitForSelector ''#box'' \<lparr> timeout = None, state = None, visible = None \<rparr>) (Rejected ''TimeoutError''),
                                             Log Error ''[-] Error: TimeoutError'' ] \<rparr>)
   \<and> (\<exists>w. reaches (Suc 0) (rejecting (WaitForSelector ''#checkout'' \<lparr> timeout = Some 1000, state = None, visible = None \<rparr>)) shop 0 23 w
      \<and> run (Suc 0) (rejecting (WaitForSelector ''#checkout'' \<lparr> timeout = Some 1000, state = None, visible = None \<rparr>)) shop 0 =
          Ok \<lparr> ctl = 17, trace = trace w @ [ Call (WaitForSelector ''#checkout'' \<lparr> timeout = Some 1000, state = None, visible = None \<rparr>) (Rejected ''TimeoutError''),
                                             Log Error ''[-] Error: TimeoutError'' ] \<rparr>)"
proof (intro conjI)
  let ?c = "LocatorClick ''#agree'' False"
  have "\<exists>w. reaches (Suc 0) (rejecting ?c) shop 0 6 w \<and> ctl w = 4"
    by (simp add: reaches_def flow_defs)
  then obtain w where r: "reaches (Suc 0) (rejecting ?c) shop 0 6 w" and c: "ctl w = 4" by blast
  have m: "(6, ?c) \<in> set
      [ (6, LocatorClick (AGREEMENT (LOCATORS shop)) False),
        (20, WaitForSelector (CHECKBOX (LOCATORS shop)) \<lparr> timeout = None, state = None, visible = None \<rparr>),
        (23, WaitForSelector (CHECKOUT (LOCATORS shop)) \<lparr> timeout = Some 1000, state = None, visible = None \<rparr>) ]"
    by (simp add: shop_def)
  have p: "perform (rejecting ?c) ?c (ctl w) = (Rejected ''TimeoutError'', 5)"
    by (simp add: c rejecting_def double_def)
  from fatal_waits_reach_handler[OF r m p] r
  show "\<exists>w. reaches (Suc 0) (rejecting ?c) shop 0 6 w
      \<and> run (Suc 0) (rejecting ?c) shop 0 =
          Ok \<lparr> ctl = 5, trace = trace w @ [ Call ?c (Rejected ''TimeoutError''),
                                             Log Error ''[-] Error: TimeoutError'' ] \<rparr>"
    by auto
next
  let ?c = "WaitForSelector ''#box'' \<lparr> timeout = None, state = None, visible = None \<rparr>"
  have "\<exists>w. reaches (Suc 0) (rejecting ?c) shop 0 20 w \<and> ctl w = 14"
    by (simp add: reaches_def flow_defs)
  then obtain w where r: "reaches (Suc 0) (rejecting ?c) shop 0 20 w" and c: "ctl w = 14" by blast
  have m: "(20, ?c) \<in> set
      [ (6, LocatorClick (AGREEMENT (LOCATORS shop)) False),
        (20, WaitForSelector (CHECKBOX (LOCATORS shop)) \<lparr> timeout = None, state = None, visible = None \<rparr>),
        (23, WaitForSelector (CHECKOUT (LOCATORS shop)) \<lparr> timeout = Some 1000, state = None, visible = None \<rparr>) ]"
    by (simp add: shop_def)
  have p: "perform (rejecting ?c) ?c (ctl w) = (Rejected ''TimeoutError'', 15)"
    by (simp add: c rejecting_def double_def)
  from fatal_waits_reach_handler[OF r m p] r
  show "\<exists>w. reaches (Suc 0) (rejecting ?c) shop 0 20 w
      \<and> run (Suc 0) (rejecting ?c) shop 0 =
          Ok \<lparr> ctl = 15, trace = trace w @ [ Call ?c (Rejected ''TimeoutError''),
                                             Log Error ''[-] Error: TimeoutError'' ] \<rparr>"
    by auto
next
  let ?c = "WaitForSelector ''#checkout'' \<lparr> timeout = Some 1000, state = None, visible = None \<rparr>"
  have "\<exists>w. reaches (Suc 0) (rejecting ?c) shop 0 23 w \<and> ctl w = 16"
    by (simp add: reaches_def flow_defs)
  then obtain w where r: "reaches (Suc 0) (rejecting ?c) shop 0 23 w" and c: "ctl w = 16" by blast
  have m: "(23, ?c) \<in> set
      [ (6, LocatorClick (AGREEMENT (LOCATORS shop)) False),
        (20, WaitForSelector (CHECKBOX (LOCATORS shop)) \<lparr> timeout = None, state = None, visible = None \<rparr>),
        (23, WaitForSelector (CHECKOUT (LOCATORS shop)) \<lparr> timeout = Some 1000, state = None, visible = None \<rparr>) ]"
    by (simp add: shop_def)
  have p: "perform (rejecting ?c) ?c (ctl w) = (Rejected ''TimeoutError'', 17)"
    by (simp add: c rejecting_def double_def)
  from fatal_waits_reach_handler[OF r m p] r
  show "\<exists>w. reaches (Suc 0) (rejecting ?c) shop 0 23 w
      \<and> run (Suc 0) (rejecting ?c) shop 0 =
          Ok \<lparr> ctl = 17, trace = trace w @ [ Call ?c (Rejected ''TimeoutError''),
                                             Log Error ''[-] Error: TimeoutError'' ] \<rparr>"
    by auto
qed

text \<open>
  The double that resolves everything, standing before the viewport operation.
\<close>

theorem launch_and_viewport_fixed_witness:
  "reaches (Suc 0) (double (\<lambda>c n. False)) shop 0 4
      \<lparr> ctl = 3,
        trace = [ Call (Launch False) Resolved, Call NewPage Resolved,
                  Call (Goto ''https://shop.test/item'') Resolved,
                  Log Info ''[+] Open login page'' ] \<rparr>
   \<and> (\<exists>r rest. trace (world_of (run (Suc 0) (double (\<lambda>c n. False)) shop 0)) =
        [ Call (Launch False) Resolved, Call NewPage Resolved,
          Call (Goto ''https://shop.test/item'') Resolved,
          Log Info ''[+] Open login page'' ] @ Call (SetViewport 1080 1024) r # rest)
   \<and> list_all fixed_args (trace (world_of (run (Suc 0) (double (\<lambda>c n. False)) shop 0)))"
proof -
  let ?w = "\<lparr> ctl = 3,
        trace = [ Call (Launch False) Resolved, Call NewPage Resolved,
                  Call (Goto ''https://shop.test/item'') Resolved,
                  Log Info ''[+] Open login page'' ] \<rparr> :: nat world"
  have r: "reaches (Suc 0) (double (\<lambda>c n. False)) shop 0 4 ?w"
    by (simp add: reaches_def flow_defs)
  from launch_and_viewport_fixed[of "Suc 0" "double (\<lambda>c n. False)" shop 0 ?w] r
  show ?thesis by simp
qed

text \<open>
  A double that rejects the navigation to the product.
\<close>

theorem uncaught_failure_only_logs_witness:
  "exec (body (Suc 0) (rejecting (Goto ''https://shop.test/item'')) shop
          (now (rejecting (Goto ''https://shop.test/item'')) 0)) \<lparr> ctl = 0, trace = [] \<rparr>
     = Threw ''TimeoutError''
         \<lparr> ctl = 3, trace = [ Call (Launch False) Resolved, Call NewPage Resolved,
                              Call (Goto ''https://shop.test/item'') (Rejected ''TimeoutError'') ] \<rparr>
   \<and> run (Suc 0) (rejecting (Goto ''https://shop.test/item'')) shop 0
     = Ok \<lparr> ctl = 3, trace = [ Call (Launch False) Resolved, Call NewPage Resolved,
                                Call (Goto ''https://shop.test/item'') (Rejected ''TimeoutError''),
                                Log Error ''[-] Error: TimeoutError'' ] \<rparr>"
proof -
  have t: "exec (body (Suc 0) (rejecting (Goto ''https://shop.test/item'')) shop
          (now (rejecting (Goto ''https://shop.test/item'')) 0)) \<lparr> ctl = 0, trace = [] \<rparr>
     = Threw ''TimeoutError''
         \<lparr> ctl = 3, trace = [ Call (Launch False) Resolved, Call NewPage Resolved,
                              Call (Goto ''https://shop.test/item'') (Rejected ''TimeoutError'') ] \<rparr>"
    by (simp add: flow_defs)
  from uncaught_failure_only_logs[OF t] t show ?thesis by simp
qed

text \<open>
  C6 as stated fails when the failing operation is the close itself: the run then
  has called close, and ends with the error line.
\<close>

theorem close_called_on_failure_path:
  "drop 45 (trace (world_of (run (Suc 0) (rejecting Close) shop 0)))
     = [ Call (Delay 999999) Resolved,
         Call Close (Rejected ''TimeoutError''),
         Log Error ''[-] Error: TimeoutError'' ]
   \<and> Close \<in> set (calls_of (trace (world_of (run (Suc 0) (rejecting Close) shop 0))))"
  by (simp add: flow_defs)

text \<open>
  C2 as stated fails for the step-12 wait: with a double that rejects the pay wait,
  the run ends with that rejected wait and one error line; it logs no pay warning and
  never hovers.
\<close>

theorem pay_wait_timeout_is_fatal:
  "drop 32 (trace (world_of (run (Suc 0) (rejecting (pay_wait shop)) shop 0)))
     = [ Log Info ''[+] waiting for page to load'',
         Call (WaitForSelector ''#pay'' \<lparr> timeout = Some 8000, state = None, visible = Some True \<rparr>)
           (Rejected ''TimeoutError''),
         Log Error ''[-] Error: TimeoutError'' ]
   \<and> Hover ''#order'' \<notin> set (calls_of (trace (world_of (run (Suc 0) (rejecting (pay_wait shop)) shop 0))))
   \<and> (Warn, ''[-] pay button not clicked'')
        \<notin> set (logs_of (trace (world_of (run (Suc 0) (rejecting (pay_wait shop)) shop 0))))"
  by (simp add: flow_defs)

text \<open>
  Three doubles on the sample constants: one rejects the go-to-cart wait, one the pay
  click, one the pay wait.
\<close>

theorem guarded_failures_continue_witness:
  "(\<exists>w. reaches (Suc 0) (rejecting (go_to_cart_wait shop)) shop 0 18 w
      \<and> (\<exists>r rest. trace (world_of (run (Suc 0) (rejecting (go_to_cart_wait shop)) shop 0)) =
            trace w @ [ Call (go_to_cart_wait shop) (Rejected ''TimeoutError''),
                        Log Warn ''[-] GO_TO_CART not available, retrying...'',
                        Call (WaitForNavigation None) r ] @ rest))
   \<and> (\<exists>w. reaches (Suc 0) (rejecting (LocatorClick ''#pay'' True)) shop 0 32 w
      \<and> (\<exists>r rest. trace (world_of (run (Suc 0) (rejecting (LocatorClick ''#pay'' True)) shop 0)) =
            trace w @ [ Call (LocatorClick ''#pay'' True) (Rejected ''TimeoutError''),
                        Log Warn ''[-] pay button not clicked'',
                        Call (Hover ''#order'') r ] @ rest))
   \<and> (\<exists>w. reaches (Suc 0) (rejecting (pay_wait shop)) shop 0 30 w
      \<and> run (Suc 0) (rejecting (pay_wait shop)) shop 0 =
          Ok \<lparr> ctl = 21, trace = trace w @ [ Call (pay_wait shop) (Rejected ''TimeoutError''),
                                              Log Error ''[-] Error: TimeoutError'' ] \<rparr>)"
proof (intro conjI)
  let ?c = "go_to_cart_wait shop"
  have "\<exists>w. reaches (Suc 0) (rejecting ?c) shop 0 18 w \<and> ctl w = 11"
    by (simp add: reaches_def flow_defs)
  then obtain w where r: "reaches (Suc 0) (rejecting ?c) shop 0 18 w" and c: "ctl w = 11" by blast
  have p: "perform (rejecting ?c) ?c (ctl w) = (Rejected ''TimeoutError'', 12)"
    by (simp add: c rejecting_def double_def)
  from guarded_failures_continue[of "Suc 0" "rejecting ?c" shop 0 w "''TimeoutError''" 12] r p
  show "\<exists>w. reaches (Suc 0) (rejecting ?c) shop 0 18 w
      \<and> (\<exists>r rest. trace (world_of (run (Suc 0) (rejecting ?c) shop 0)) =
            trace w @ [ Call ?c (Rejected ''TimeoutError''),
                        Log Warn ''[-] GO_TO_CART not available, retrying...'',
                        Call (WaitForNavigation None) r ] @ rest)"
    by blast
next
  let ?c = "LocatorClick ''#pay'' True"
  have "\<exists>w. reaches (Suc 0) (rejecting ?c) shop 0 32 w \<and> ctl w = 21"
    by (simp add: reaches_def flow_defs)
  then obtain w where r: "reaches (Suc 0) (rejecting ?c) shop 0 32 w" and c: "ctl w = 21" by blast
  have p: "perform (rejecting ?c) (LocatorClick (PAY (LOCATORS shop)) True) (ctl w) = (Rejected ''TimeoutError'', 22)"
    by (simp add: c rejecting_def double_def shop_def)
  have s: "PAY (LOCATORS shop) = ''#pay''" "ORDERING (LOCATORS shop) = ''#order''"
    by (simp_all add: shop_def)
  from guarded_failures_continue[of "Suc 0" "rejecting ?c" shop 0 w "''TimeoutError''" 22] r p
  show "\<exists>w. reaches (Suc 0) (rejecting ?c) shop 0 32 w
      \<and> (\<exists>r rest. trace (world_of (run (Suc 0) (rejecting ?c) shop 0)) =
            trace w @ [ Call ?c (Rejected ''TimeoutError''),
                        Log Warn ''[-] pay button not clicked'',
                        Call (Hover ''#order'') r ] @ rest)"
    unfolding s by blast
next
  let ?c = "pay_wait shop"
  have "\<exists>w. reaches (Suc 0) (rejecting ?c) shop 0 30 w \<and> ctl w = 20"
    by (simp add: reaches_def flow_defs)
  then obtain w where r: "reaches (Suc 0) (rejecting ?c) shop 0 30 w" and c: "ctl w = 20" by blast
  have p: "perform (rejecting ?c) ?c (ctl w) = (Rejected ''TimeoutError'', 21)"
    by (simp add: c rejecting_def double_def)
  from guarded_failures_continue[of "Suc 0" "rejecting ?c" shop 0 w "''TimeoutError''" 21] r p
  show "\<exists>w. reaches (Suc 0) (rejecting ?c) shop 0 30 w
      \<and> run (Suc 0) (rejecting ?c) shop 0 =
          Ok \<lparr> ctl = 21, trace = trace w @ [ Call ?c (Rejected ''TimeoutError''),
                                              Log Error ''[-] Error: TimeoutError'' ] \<rparr>"
    by auto
qed


end
